theory Spec2Isabelle
  imports Complex_Main "HOL-Library.Monad_Syntax"
begin

section \<open>The rate limiter of \<^verbatim>\<open>SkRateLimiterService.ts\<close>\<close>

text \<open>
  A shallow embedding of \<^verbatim>\<open>packages/backend/src/server/api/SkRateLimiterService.ts\<close>.

  \<^item> A JavaScript \<^verbatim>\<open>number\<close> is a \<^typ>\<open>real\<close>: the finite values, computed exactly.
    The only operation of the file that leaves the finite numbers on finite operands is
    a division by zero (\<^verbatim>\<open>Infinity\<close> or \<^verbatim>\<open>NaN\<close> in JavaScript), so a division
    returns an \<^typ>\<open>real option\<close> and a limiter whose arithmetic divides by zero returns
    \<open>None\<close>: the embedding says nothing about such a call.
  \<^item> An optional field or parameter (\<^verbatim>\<open>dripRate?: number\<close>) is an option,
    \<open>None\<close> for \<^verbatim>\<open>undefined\<close>.
  \<^item> The service object is a record that is passed in and returned: its
    \<^verbatim>\<open>disabled\<close> flag (a field of the base class), the value of
    \<^verbatim>\<open>timeService.now\<close> (one value during a call) and the Redis client.
  \<^item> The Redis client is the key-value content of the store together with the trace of
    the commands sent to it. A value is kept as the counter it encodes
    (\<^verbatim>\<open>JSON.stringify\<close> on writing, \<^verbatim>\<open>JSON.parse\<close> on reading) with the
    expiry (\<^verbatim>\<open>PX\<close>) it was written with; a \<^verbatim>\<open>set\<close> takes effect when it is sent.
    Expiry itself is the store's affair and happens between calls, outside this file.
\<close>

subsection \<open>Numbers\<close>

definition MAX_SAFE_INTEGER :: real where
  "MAX_SAFE_INTEGER = 2 ^ 53 - 1"

definition js_div :: "real \<Rightarrow> real \<Rightarrow> real option" where
  "js_div a b = (if b = 0 then None else Some (a / b))"

definition Math_floor :: "real \<Rightarrow> real" where
  "Math_floor x = of_int \<lfloor>x\<rfloor>"

definition Math_ceil :: "real \<Rightarrow> real" where
  "Math_ceil x = of_int \<lceil>x\<rceil>"

text \<open>\<^verbatim>\<open>Math.round\<close> rounds a half towards positive infinity.\<close>

definition Math_round :: "real \<Rightarrow> real" where
  "Math_round x = of_int \<lfloor>x + 1 / 2\<rfloor>"

text \<open>Truthiness of an optional number: defined and not zero.\<close>

definition truthy :: "real option \<Rightarrow> bool" where
  "truthy x = (case x of None \<Rightarrow> False | Some v \<Rightarrow> v \<noteq> 0)"

text \<open>\<^verbatim>\<open>a ?? b\<close>\<close>

definition nullish :: "'a option \<Rightarrow> 'a \<Rightarrow> 'a" where
  "nullish a b = (case a of None \<Rightarrow> b | Some v \<Rightarrow> v)"

text \<open>\<^verbatim>\<open>a || b\<close> on optional booleans: \<open>a\<close> when it is \<^verbatim>\<open>true\<close>, else \<open>b\<close>.\<close>

definition js_or :: "bool option \<Rightarrow> bool option \<Rightarrow> bool option" where
  "js_or a b = (if a = Some True then a else b)"

subsection \<open>Data\<close>

record LimitInfo =
  blocked :: bool
  remaining :: real
  resetSec :: real
  resetMs :: real
  fullResetSec :: real
  fullResetMs :: real

text \<open>
  \<^verbatim>\<open>RateLimit\<close>, the bucket rule. Its field \<^verbatim>\<open>size\<close> is \<open>bucket_size\<close> here.
\<close>

record RateLimit =
  key :: string
  bucket_size :: real
  dripRate :: "real option"
  dripSize :: "real option"

text \<open>
  \<^verbatim>\<open>LegacyRateLimit\<close>: \<^verbatim>\<open>IEndpointMeta['limit']\<close> with a key. Its fields
  \<^verbatim>\<open>key\<close> and \<^verbatim>\<open>max\<close> are \<open>legacy_key\<close> and \<open>legacy_max\<close> here.
\<close>

record LegacyRateLimit =
  legacy_key :: string
  duration :: "real option"
  legacy_max :: "real option"
  minInterval :: "real option"

text \<open>The field \<^verbatim>\<open>type\<close> is the constructor.\<close>

datatype SupportedRateLimit = Bucket RateLimit | Legacy LegacyRateLimit

record LimitCounter =
  t :: real
  c :: real

datatype redis_command = GET string | SET string LimitCounter real

record Redis =
  kv :: "string \<rightharpoonup> LimitCounter \<times> real"
  sent :: "redis_command list"

record SkRateLimiterService =
  disabled :: bool
  now :: real
  redisClient :: Redis

subsection \<open>The store\<close>

definition redis_get :: "Redis \<Rightarrow> string \<Rightarrow> LimitCounter option \<times> Redis" where
  "redis_get r k = (map_option fst (kv r k), r\<lparr>sent := sent r @ [GET k]\<rparr>)"

definition redis_set :: "Redis \<Rightarrow> string \<Rightarrow> LimitCounter \<Rightarrow> real \<Rightarrow> Redis" where
  "redis_set r k v px = r\<lparr>kv := (kv r)(k \<mapsto> (v, px)), sent := sent r @ [SET k v px]\<rparr>"

subsection \<open>The functions of the file\<close>

fun isLegacyRateLimit :: "SupportedRateLimit \<Rightarrow> bool" where
  "isLegacyRateLimit (Legacy _) = True"
| "isLegacyRateLimit (Bucket _) = False"

definition hasMinLimit :: "LegacyRateLimit \<Rightarrow> bool" where
  "hasMinLimit limit = truthy (minInterval limit)"

fun limit_key :: "SupportedRateLimit \<Rightarrow> string" where
  "limit_key (Bucket limit) = key limit"
| "limit_key (Legacy limit) = legacy_key limit"

text \<open>\<^verbatim>\<open>if (subject)\<close>: an empty string is falsy, as \<^verbatim>\<open>undefined\<close> is.\<close>

definition createLimitKey :: "SupportedRateLimit \<Rightarrow> string \<Rightarrow> string option \<Rightarrow> string" where
  "createLimitKey limit actor subject =
     (if subject \<noteq> None \<and> subject \<noteq> Some []
      then ''rl_'' @ actor @ ''_'' @ limit_key limit @ ''_'' @ the subject
      else ''rl_'' @ actor @ ''_'' @ limit_key limit)"

definition getLimitCounter ::
  "SkRateLimiterService \<Rightarrow> SupportedRateLimit \<Rightarrow> string \<Rightarrow> string option
     \<Rightarrow> LimitCounter \<times> SkRateLimiterService" where
  "getLimitCounter s limit actor subject =
     (let k = createLimitKey limit actor subject;
          (v, r) = redis_get (redisClient s) k
      in (case v of
            None \<Rightarrow> (\<lparr>t = 0, c = 0\<rparr>, s\<lparr>redisClient := r\<rparr>)
          | Some counter \<Rightarrow> (counter, s\<lparr>redisClient := r\<rparr>)))"

definition setLimitCounter ::
  "SkRateLimiterService \<Rightarrow> SupportedRateLimit \<Rightarrow> string \<Rightarrow> LimitCounter \<Rightarrow> real
     \<Rightarrow> string option \<Rightarrow> SkRateLimiterService" where
  "setLimitCounter s limit actor counter expirationMs subject =
     (let k = createLimitKey limit actor subject
      in s\<lparr>redisClient := redis_set (redisClient s) k counter expirationMs\<rparr>)"

text \<open>
  The block \<^verbatim>\<open>// Update expiration\<close> of \<^verbatim>\<open>limitMin\<close> (lines 186 to 192) and the
  block \<^verbatim>\<open>// Update drips\<close> of \<^verbatim>\<open>limitBucket\<close> (lines 225 to 229), each as a
  function of the counter that was read.
\<close>

definition update_expiration :: "real \<Rightarrow> real \<Rightarrow> real \<Rightarrow> LimitCounter \<Rightarrow> LimitCounter" where
  "update_expiration time_now maxCalls limit_minInterval counter =
     (if c counter \<ge> maxCalls
      then (let isCleared = (time_now - t counter \<ge> limit_minInterval)
            in if isCleared then counter\<lparr>c := 0\<rparr> else counter)
      else counter)"

definition update_drips :: "real \<Rightarrow> real \<Rightarrow> real \<Rightarrow> LimitCounter \<Rightarrow> LimitCounter option" where
  "update_drips time_now dripRate' dripSize' counter =
     (if c counter > 0
      then do {
        q \<leftarrow> js_div (time_now - t counter) dripRate';
        let dripsSinceLastTick = Math_floor q * dripSize';
        Some (counter\<lparr>c := max (c counter - dripsSinceLastTick) 0\<rparr>)
      }
      else Some counter)"

text \<open>
  \<^verbatim>\<open>limitMin\<close>. Its rule has the type
  \<^verbatim>\<open>LegacyRateLimit & { minInterval: number }\<close>: the number is the second argument
  here. The source's return type allows \<^verbatim>\<open>null\<close>, which it never returns.
\<close>

definition limitMin ::
  "SkRateLimiterService \<Rightarrow> LegacyRateLimit \<Rightarrow> real \<Rightarrow> string \<Rightarrow> real
     \<Rightarrow> LimitInfo \<times> SkRateLimiterService" where
  "limitMin s limit limit_minInterval actor factor =
     (let (counter, s1) = getLimitCounter s (Legacy limit) actor (Some ''min'');
          maxCalls = max (Math_ceil factor) 1;
          counter1 = update_expiration (now s1) maxCalls limit_minInterval counter;
          is_blocked = (c counter1 \<ge> maxCalls);
          counter2 =
            (if \<not> is_blocked then counter1\<lparr>c := c counter1 + 1, t := now s1\<rparr> else counter1);
          \<comment> \<open>Calculate limit status\<close>
          remaining' = max (maxCalls - c counter2) 0;
          fullResetMs' = max (Math_ceil (limit_minInterval - (now s1 - t counter2))) 0;
          fullResetSec' = Math_ceil (fullResetMs' / 1000);
          resetMs' = (if remaining' < 1 then fullResetMs' else 0);
          resetSec' = (if remaining' < 1 then fullResetSec' else 0);
          limitInfo = \<lparr>blocked = is_blocked, remaining = remaining', resetSec = resetSec',
            resetMs = resetMs', fullResetSec = fullResetSec', fullResetMs = fullResetMs'\<rparr>;
          \<comment> \<open>Update the limit counter, but not if blocked\<close>
          s2 = (if \<not> is_blocked
                then setLimitCounter s1 (Legacy limit) actor counter2 resetMs' (Some ''min'')
                else s1)
      in (limitInfo, s2))"

definition limitBucket ::
  "SkRateLimiterService \<Rightarrow> RateLimit \<Rightarrow> string \<Rightarrow> real
     \<Rightarrow> (LimitInfo \<times> SkRateLimiterService) option" where
  "limitBucket s limit actor factor =
     (let (counter, s1) = getLimitCounter s (Bucket limit) actor None;
          dripRate' = nullish (dripRate limit) 1000;
          dripSize' = nullish (dripSize limit) 1;
          bucketSize = bucket_size limit * factor
      in do {
        counter1 \<leftarrow> update_drips (now s1) dripRate' dripSize' counter;
        let is_blocked = (c counter1 \<ge> bucketSize);
        let counter2 =
          (if \<not> is_blocked then counter1\<lparr>c := c counter1 + 1, t := now s1\<rparr> else counter1);
        \<comment> \<open>Calculate limit status\<close>
        let remaining' = max (bucketSize - c counter2) 0;
        let resetMs' = (if remaining' > 0 then 0 else max (dripRate' - (now s1 - t counter2)) 0);
        let resetSec' = Math_ceil (resetMs' / 1000);
        q' \<leftarrow> js_div (c counter2) dripSize';
        let fullResetMs' = Math_ceil q' * dripRate';
        let fullResetSec' = Math_ceil (fullResetMs' / 1000);
        let limitInfo = \<lparr>blocked = is_blocked, remaining = remaining', resetSec = resetSec',
          resetMs = resetMs', fullResetSec = fullResetSec', fullResetMs = fullResetMs'\<rparr>;
        \<comment> \<open>Update the limit counter, but not if blocked\<close>
        let s2 = (if \<not> is_blocked
                  then setLimitCounter s1 (Bucket limit) actor counter2 fullResetMs' None
                  else s1);
        Some (limitInfo, s2)
      })"

text \<open>
  \<^verbatim>\<open>limitLegacy\<close>. The source starts the two limiters one after the other and
  awaits them together (\<^verbatim>\<open>Promise.all\<close>), so their commands may interleave; here the
  first runs to its end before the second starts. The two work on different keys
  (\<open>createLimitKey_min_distinct\<close> below), so neither reads what the other writes
  (\<open>limitBucket_info_cong\<close>), and only the order of the command trace depends on the
  interleaving. The results are taken from the array by position: \<^verbatim>\<open>lim1\<close> is the
  first limiter that ran.
\<close>

definition nth_opt :: "'a list \<Rightarrow> nat \<Rightarrow> 'a option" where
  "nth_opt xs i = (if i < length xs then Some (xs ! i) else None)"

definition limitLegacy ::
  "SkRateLimiterService \<Rightarrow> LegacyRateLimit \<Rightarrow> string \<Rightarrow> real
     \<Rightarrow> (LimitInfo \<times> SkRateLimiterService) option" where
  "limitLegacy s limit actor factor =
     (let \<comment> \<open>The min limit - if present - is handled directly.\<close>
          (promises1, s1) =
            (if hasMinLimit limit
             then (let (r, s') = limitMin s limit (nullish (minInterval limit) 0) actor factor
                   in ([r], s'))
             else ([], s))
      in do {
        \<comment> \<open>Convert the max limit into a leaky bucket with 1 drip / second rate.\<close>
        (promises2, s2) \<leftarrow>
          (if truthy (legacy_max limit) \<and> truthy (duration limit)
           then do {
             q \<leftarrow> js_div (nullish (duration limit) 0) (nullish (legacy_max limit) 0);
             (r, s') \<leftarrow> limitBucket s1
               \<lparr>key = legacy_key limit, bucket_size = nullish (legacy_max limit) 0,
                dripRate = Some (Math_round q), dripSize = None\<rparr> actor factor;
             Some (promises1 @ [r], s')
           }
           else Some (promises1, s1));
        let lim1 = nth_opt promises2 0;
        let lim2 = nth_opt promises2 1;
        Some (\<lparr>blocked = nullish (js_or (map_option blocked lim1) (map_option blocked lim2)) False,
               remaining = min (nullish (map_option remaining lim1) 1)
                               (nullish (map_option remaining lim2) 1),
               resetSec = max (nullish (map_option resetSec lim1) 0)
                              (nullish (map_option resetSec lim2) 0),
               resetMs = max (nullish (map_option resetMs lim1) 0)
                             (nullish (map_option resetMs lim2) 0),
               fullResetSec = max (nullish (map_option fullResetSec lim1) 0)
                                  (nullish (map_option fullResetSec lim2) 0),
               fullResetMs = max (nullish (map_option fullResetMs lim1) 0)
                                 (nullish (map_option fullResetMs lim2) 0)\<rparr>, s2)
      })"

text \<open>
  \<^verbatim>\<open>limit\<close>; the parameter \<^verbatim>\<open>factor = 1\<close> is optional. The type guard
  \<^verbatim>\<open>isLegacyRateLimit\<close> is the case distinction on the rule.
\<close>

definition limit ::
  "SkRateLimiterService \<Rightarrow> SupportedRateLimit \<Rightarrow> string \<Rightarrow> real option
     \<Rightarrow> (LimitInfo \<times> SkRateLimiterService) option" where
  "limit s rule actor factor_arg =
     (let factor = nullish factor_arg 1
      in if disabled s
         then Some (\<lparr>blocked = False, remaining = MAX_SAFE_INTEGER, resetSec = 0, resetMs = 0,
                     fullResetSec = 0, fullResetMs = 0\<rparr>, s)
         else (case rule of
                 Legacy l \<Rightarrow> limitLegacy s l actor factor
               | Bucket b \<Rightarrow> limitBucket s b actor factor))"

subsection \<open>Notions used in the statements\<close>

text \<open>The counter that a read of key \<open>k\<close> returns in state \<open>s\<close>.\<close>

definition stored :: "SkRateLimiterService \<Rightarrow> string \<Rightarrow> LimitCounter" where
  "stored s k = (case kv (redisClient s) k of None \<Rightarrow> \<lparr>t = 0, c = 0\<rparr> | Some (v, px) \<Rightarrow> v)"

text \<open>The key a command addresses.\<close>

fun command_key :: "redis_command \<Rightarrow> string" where
  "command_key (GET k) = k"
| "command_key (SET k v px) = k"

text \<open>
  \<open>n\<close> calls of \<^verbatim>\<open>limit\<close> one after the other with the same arguments and the same
  clock, each on the state the one before left.
\<close>

fun limit_times ::
  "nat \<Rightarrow> SkRateLimiterService \<Rightarrow> SupportedRateLimit \<Rightarrow> string \<Rightarrow> real option
     \<Rightarrow> (LimitInfo list \<times> SkRateLimiterService) option" where
  "limit_times 0 s rule actor factor_arg = Some ([], s)"
| "limit_times (Suc n) s rule actor factor_arg =
     do {
       (info, s1) \<leftarrow> limit s rule actor factor_arg;
       (infos, s2) \<leftarrow> limit_times n s1 rule actor factor_arg;
       Some (info # infos, s2)
     }"

text \<open>
  The merge of two optional sub-results in the words of the specification: blocked is the
  OR, a missing sub-result not blocking; remaining is the MIN, a missing sub-result
  counting as 1; each reset is the MAX, a missing sub-result counting as 0.
\<close>

definition merge_spec :: "LimitInfo option \<Rightarrow> LimitInfo option \<Rightarrow> LimitInfo" where
  "merge_spec a b =
     \<lparr>blocked = ((case a of None \<Rightarrow> False | Some x \<Rightarrow> blocked x)
                  \<or> (case b of None \<Rightarrow> False | Some y \<Rightarrow> blocked y)),
      remaining = min (case a of None \<Rightarrow> 1 | Some x \<Rightarrow> remaining x)
                      (case b of None \<Rightarrow> 1 | Some y \<Rightarrow> remaining y),
      resetSec = max (case a of None \<Rightarrow> 0 | Some x \<Rightarrow> resetSec x)
                     (case b of None \<Rightarrow> 0 | Some y \<Rightarrow> resetSec y),
      resetMs = max (case a of None \<Rightarrow> 0 | Some x \<Rightarrow> resetMs x)
                    (case b of None \<Rightarrow> 0 | Some y \<Rightarrow> resetMs y),
      fullResetSec = max (case a of None \<Rightarrow> 0 | Some x \<Rightarrow> fullResetSec x)
                         (case b of None \<Rightarrow> 0 | Some y \<Rightarrow> fullResetSec y),
      fullResetMs = max (case a of None \<Rightarrow> 0 | Some x \<Rightarrow> fullResetMs x)
                        (case b of None \<Rightarrow> 0 | Some y \<Rightarrow> fullResetMs y)\<rparr>"

section \<open>Properties\<close>

subsection \<open>Reads, writes and keys\<close>

lemma getLimitCounter_eq:
  "getLimitCounter s rule actor subject =
     (stored s (createLimitKey rule actor subject),
      s\<lparr>redisClient := (redisClient s)
          \<lparr>sent := sent (redisClient s) @ [GET (createLimitKey rule actor subject)]\<rparr>\<rparr>)"
  by (simp add: getLimitCounter_def redis_get_def stored_def Let_def split: option.split)

lemma createLimitKey_None:
  "createLimitKey rule actor None = ''rl_'' @ actor @ ''_'' @ limit_key rule"
  by (simp add: createLimitKey_def)

lemma createLimitKey_Some:
  "sj \<noteq> [] \<Longrightarrow>
     createLimitKey rule actor (Some sj) = ''rl_'' @ actor @ ''_'' @ limit_key rule @ ''_'' @ sj"
  by (simp add: createLimitKey_def)

lemma createLimitKey_min_distinct:
  "limit_key rule = limit_key rule' \<Longrightarrow>
     createLimitKey rule actor None \<noteq> createLimitKey rule' actor (Some ''min'')"
  by (simp add: createLimitKey_def)

lemma limitBucket_blocked_frame:
  assumes "limitBucket s rule actor factor = Some (info, s')" and "blocked info"
  shows "s' = s\<lparr>redisClient := (redisClient s)
            \<lparr>sent := sent (redisClient s) @ [GET (createLimitKey (Bucket rule) actor None)]\<rparr>\<rparr>"
  using assms
  by (auto simp: limitBucket_def getLimitCounter_eq Let_def split: Option.bind_splits if_splits)

lemma limitMin_blocked_frame:
  assumes "limitMin s rule mi actor factor = (info, s')" and "blocked info"
  shows "s' = s\<lparr>redisClient := (redisClient s)
            \<lparr>sent := sent (redisClient s)
               @ [GET (createLimitKey (Legacy rule) actor (Some ''min''))]\<rparr>\<rparr>"
  using assms
  by (auto simp: limitMin_def getLimitCounter_eq Let_def split: if_splits)

lemma limitBucket_commands:
  assumes "limitBucket s rule actor factor = Some (info, s')"
  shows "\<exists>cmds. sent (redisClient s') = sent (redisClient s) @ cmds
           \<and> command_key ` set cmds = {createLimitKey (Bucket rule) actor None}"
proof (cases "blocked info")
  case True
  from limitBucket_blocked_frame[OF assms True] show ?thesis by simp
next
  case False
  with assms show ?thesis
    by (auto simp: limitBucket_def getLimitCounter_eq setLimitCounter_def redis_set_def Let_def
        split: Option.bind_splits if_splits)
qed

lemma limitMin_commands:
  assumes "limitMin s rule mi actor factor = (info, s')"
  shows "\<exists>cmds. sent (redisClient s') = sent (redisClient s) @ cmds
           \<and> command_key ` set cmds = {createLimitKey (Legacy rule) actor (Some ''min'')}"
proof (cases "blocked info")
  case True
  from limitMin_blocked_frame[OF assms True] show ?thesis by simp
next
  case False
  with assms show ?thesis
    by (auto simp: limitMin_def getLimitCounter_eq setLimitCounter_def redis_set_def Let_def
        split: if_splits)
qed

subsection \<open>The legacy limit\<close>

lemma limitBucket_info_cong:
  assumes "now s1 = now s"
    and "kv (redisClient s1) (createLimitKey (Bucket rule) actor None)
           = kv (redisClient s) (createLimitKey (Bucket rule) actor None)"
  shows "map_option fst (limitBucket s1 rule actor factor) = map_option fst (limitBucket s rule actor factor)"
  using assms
  by (simp add: limitBucket_def getLimitCounter_eq stored_def Let_def map_option_bind split: Option.bind_split)

lemma limitMin_frame:
  assumes "limitMin s rule mi actor factor = (info, s1)"
  shows "now s1 = now s" and "disabled s1 = disabled s"
    and "k \<noteq> createLimitKey (Legacy rule) actor (Some ''min'')
           \<Longrightarrow> kv (redisClient s1) k = kv (redisClient s) k"
  using assms
  by (auto simp: limitMin_def getLimitCounter_eq setLimitCounter_def redis_set_def Let_def split: if_splits)

lemma limitBucket_dripSize_default:
  "limitBucket s \<lparr>key = k, bucket_size = n, dripRate = r, dripSize = None\<rparr> actor factor
     = limitBucket s \<lparr>key = k, bucket_size = n, dripRate = r, dripSize = Some 1\<rparr> actor factor"
  by (simp add: limitBucket_def getLimitCounter_eq setLimitCounter_def createLimitKey_def nullish_def Let_def cong: if_cong)

lemma merge_source_eq_spec:
  "\<lparr>blocked = nullish (js_or (map_option blocked lim1) (map_option blocked lim2)) False,
    remaining = min (nullish (map_option remaining lim1) 1) (nullish (map_option remaining lim2) 1),
    resetSec = max (nullish (map_option resetSec lim1) 0) (nullish (map_option resetSec lim2) 0),
    resetMs = max (nullish (map_option resetMs lim1) 0) (nullish (map_option resetMs lim2) 0),
    fullResetSec = max (nullish (map_option fullResetSec lim1) 0) (nullish (map_option fullResetSec lim2) 0),
    fullResetMs = max (nullish (map_option fullResetMs lim1) 0) (nullish (map_option fullResetMs lim2) 0)\<rparr>
   = merge_spec lim1 lim2"
  by (cases lim1; cases lim2) (auto simp: merge_spec_def nullish_def js_or_def)

lemma merge_spec_Some_None: "merge_spec (Some r) None = merge_spec None (Some r)"
  by (auto simp: merge_spec_def min.commute max.commute)


lemma nth_opt_simps:
  "nth_opt [] i = None" "nth_opt (x # xs) 0 = Some x" "nth_opt [x] (Suc 0) = None"
  "nth_opt [x, y] (Suc 0) = Some y"
  by (simp_all add: nth_opt_def)

lemma limitLegacy_info:
  "map_option fst (limitLegacy s rule actor factor) =
     (let min_result =
            (if hasMinLimit rule
             then Some (fst (limitMin s rule (nullish (minInterval rule) 0) actor factor))
             else None)
      in if truthy (legacy_max rule) \<and> truthy (duration rule)
         then map_option (\<lambda>b. merge_spec min_result (Some b))
                (map_option fst
                   (limitBucket s
                      \<lparr>key = legacy_key rule, bucket_size = nullish (legacy_max rule) 0,
                       dripRate = Some (Math_round (nullish (duration rule) 0 / nullish (legacy_max rule) 0)),
                       dripSize = Some 1\<rparr> actor factor))
         else Some (merge_spec min_result None))"
proof -
  let ?synth = "\<lparr>key = legacy_key rule, bucket_size = nullish (legacy_max rule) 0,
      dripRate = Some (Math_round (nullish (duration rule) 0 / nullish (legacy_max rule) 0)),
      dripSize = None\<rparr>"
  let ?synth1 = "\<lparr>key = legacy_key rule, bucket_size = nullish (legacy_max rule) 0,
      dripRate = Some (Math_round (nullish (duration rule) 0 / nullish (legacy_max rule) 0)),
      dripSize = Some 1\<rparr>"
  obtain mi_info s1 where m: "limitMin s rule (nullish (minInterval rule) 0) actor factor = (mi_info, s1)"
    by (cases "limitMin s rule (nullish (minInterval rule) 0) actor factor")
  have key_neq: "createLimitKey (Bucket ?synth) actor None \<noteq> createLimitKey (Legacy rule) actor (Some ''min'')"
    by (rule createLimitKey_min_distinct) simp
  have "map_option fst (limitBucket s1 ?synth actor factor) = map_option fst (limitBucket s ?synth actor factor)"
    by (rule limitBucket_info_cong) (use limitMin_frame[OF m] key_neq in auto)
  then have b1: "map_option fst (limitBucket s1 ?synth actor factor) = map_option fst (limitBucket s ?synth1 actor factor)"
    by (simp only: limitBucket_dripSize_default)
  have b0: "map_option fst (limitBucket s ?synth actor factor) = map_option fst (limitBucket s ?synth1 actor factor)"
    by (simp only: limitBucket_dripSize_default)
  show ?thesis
  proof (cases "truthy (legacy_max rule) \<and> truthy (duration rule)")
    case False
    then show ?thesis
      by (auto simp: limitLegacy_def Let_def m nth_opt_simps merge_source_eq_spec)
  next
    case True
    then have q: "js_div (nullish (duration rule) 0) (nullish (legacy_max rule) 0)
       = Some (nullish (duration rule) 0 / nullish (legacy_max rule) 0)"
      by (auto simp: js_div_def truthy_def nullish_def split: option.splits)
    show ?thesis
    proof (cases "hasMinLimit rule")
      case hm: True
      show ?thesis
      proof (cases "limitBucket s1 ?synth actor factor")
        case None
        with b1 True hm show ?thesis
          by (simp add: limitLegacy_def Let_def m q)
      next
        case (Some p)
        then obtain r s' where "limitBucket s1 ?synth actor factor = Some (r, s')" by (cases p) auto
        moreover from this b1 obtain s'' where "limitBucket s ?synth1 actor factor = Some (r, s'')"
          by (cases "limitBucket s ?synth1 actor factor") auto
        ultimately show ?thesis using True hm
          by (simp add: limitLegacy_def Let_def m q nth_opt_simps merge_source_eq_spec)
      qed
    next
      case hm: False
      show ?thesis
      proof (cases "limitBucket s ?synth actor factor")
        case None
        with b0 True hm show ?thesis
          by (simp add: limitLegacy_def Let_def q)
      next
        case (Some p)
        then obtain r s' where "limitBucket s ?synth actor factor = Some (r, s')" by (cases p) auto
        moreover from this b0 obtain s'' where "limitBucket s ?synth1 actor factor = Some (r, s'')"
          by (cases "limitBucket s ?synth1 actor factor") auto
        ultimately show ?thesis using True hm
          by (simp add: limitLegacy_def Let_def q nth_opt_simps merge_source_eq_spec merge_spec_Some_None)
      qed
    qed
  qed
qed

lemma limitBucket_frame:
  assumes "limitBucket s rule actor factor = Some (info, s')"
  shows "now s' = now s" and "disabled s' = disabled s"
    and "k \<noteq> createLimitKey (Bucket rule) actor None
           \<Longrightarrow> kv (redisClient s') k = kv (redisClient s) k"
  using assms
  by (auto simp: limitBucket_def getLimitCounter_eq setLimitCounter_def redis_set_def Let_def
      split: Option.bind_splits if_splits)

lemma limitBucket_kv_cong:
  assumes "now s1 = now s"
    and "kv (redisClient s1) (createLimitKey (Bucket rule) actor None)
           = kv (redisClient s) (createLimitKey (Bucket rule) actor None)"
  shows "map_option (\<lambda>p. kv (redisClient (snd p)) (createLimitKey (Bucket rule) actor None))
           (limitBucket s1 rule actor factor)
         = map_option (\<lambda>p. kv (redisClient (snd p)) (createLimitKey (Bucket rule) actor None))
           (limitBucket s rule actor factor)"
  using assms
  by (simp add: limitBucket_def getLimitCounter_eq stored_def setLimitCounter_def redis_set_def
      Let_def map_option_bind comp_def split: Option.bind_split)

lemma limitLegacy_state:
  "limitLegacy s rule actor factor = Some (info, s') \<Longrightarrow>
     (let s1 = (if hasMinLimit rule
                then snd (limitMin s rule (nullish (minInterval rule) 0) actor factor)
                else s)
      in if truthy (legacy_max rule) \<and> truthy (duration rule)
         then \<exists>r. limitBucket s1
                 \<lparr>key = legacy_key rule, bucket_size = nullish (legacy_max rule) 0,
                  dripRate = Some (Math_round (nullish (duration rule) 0 / nullish (legacy_max rule) 0)),
                  dripSize = Some 1\<rparr> actor factor = Some (r, s')
         else s' = s1)"
  by (auto simp: limitLegacy_def Let_def js_div_def limitBucket_dripSize_default
      split: if_splits Option.bind_splits prod.splits)

lemma limitBucket_None_iff:
  "limitBucket s rule actor factor = None \<longleftrightarrow>
     (nullish (dripRate rule) 1000 = 0
        \<and> 0 < c (stored s (createLimitKey (Bucket rule) actor None)))
     \<or> nullish (dripSize rule) 1 = 0"
  by (auto simp: limitBucket_def getLimitCounter_eq update_drips_def js_div_def Let_def
      split: Option.bind_splits if_splits)

lemma limitLegacy_effects:
  fixes s rule actor factor
  defines "kmin \<equiv> createLimitKey (Legacy rule) actor (Some ''min'')"
    and "synth1 \<equiv> \<lparr>key = legacy_key rule, bucket_size = nullish (legacy_max rule) 0,
                  dripRate = Some (Math_round (nullish (duration rule) 0 / nullish (legacy_max rule) 0)),
                  dripSize = Some 1\<rparr>"
  defines "kb \<equiv> createLimitKey (Bucket synth1) actor None"
  assumes run: "limitLegacy s rule actor factor = Some (info, s')"
  shows "\<exists>cmds. sent (redisClient s') = sent (redisClient s) @ cmds
           \<and> command_key ` set cmds
               = (if hasMinLimit rule then {kmin} else {})
                 \<union> (if truthy (legacy_max rule) \<and> truthy (duration rule) then {kb} else {})"
    and "kv (redisClient s') kmin
           = (if hasMinLimit rule
              then kv (redisClient (snd (limitMin s rule (nullish (minInterval rule) 0) actor factor)))
                     kmin
              else kv (redisClient s) kmin)"
    and "if truthy (legacy_max rule) \<and> truthy (duration rule)
         then Some (kv (redisClient s') kb)
                = map_option (\<lambda>p. kv (redisClient (snd p)) kb) (limitBucket s synth1 actor factor)
         else kv (redisClient s') kb = kv (redisClient s) kb"
    and "k \<noteq> kmin \<Longrightarrow> k \<noteq> kb \<Longrightarrow> kv (redisClient s') k = kv (redisClient s) k"
    and "now s' = now s" and "disabled s' = disabled s"
proof -
  define s1 where "s1 = (if hasMinLimit rule
                then snd (limitMin s rule (nullish (minInterval rule) 0) actor factor)
                else s)"
  have key_neq: "kb \<noteq> kmin"
    unfolding kb_def kmin_def synth1_def by (rule createLimitKey_min_distinct) simp
  have now1: "now s1 = now s" and dis1: "disabled s1 = disabled s"
    using limitMin_frame(1,2)
        [OF surjective_pairing[of "limitMin s rule (nullish (minInterval rule) 0) actor factor"]]
    unfolding s1_def by simp_all
  have kv1: "kv (redisClient s1) k' = kv (redisClient s) k'" if "k' \<noteq> kmin" for k'
    using limitMin_frame(3)
        [OF surjective_pairing[of "limitMin s rule (nullish (minInterval rule) 0) actor factor"]]
      that
    unfolding s1_def kmin_def by simp
  have kvmin1: "kv (redisClient s1) kmin
           = (if hasMinLimit rule
              then kv (redisClient (snd (limitMin s rule (nullish (minInterval rule) 0) actor factor)))
                     kmin
              else kv (redisClient s) kmin)"
    unfolding s1_def by simp
  have "\<exists>cmds1. sent (redisClient s1) = sent (redisClient s) @ cmds1
           \<and> command_key ` set cmds1 = (if hasMinLimit rule then {kmin} else {})"
  proof (cases "hasMinLimit rule")
    case True
    then show ?thesis
      using limitMin_commands
          [OF surjective_pairing[of "limitMin s rule (nullish (minInterval rule) 0) actor factor"]]
      unfolding s1_def kmin_def by simp
  next
    case False
    then show ?thesis unfolding s1_def by simp
  qed
  then obtain cmds1 where sent1: "sent (redisClient s1) = sent (redisClient s) @ cmds1"
    and keys1: "command_key ` set cmds1 = (if hasMinLimit rule then {kmin} else {})"
    by blast
  note st = limitLegacy_state[OF run, unfolded Let_def, folded s1_def synth1_def]
  show "\<exists>cmds. sent (redisClient s') = sent (redisClient s) @ cmds
           \<and> command_key ` set cmds
               = (if hasMinLimit rule then {kmin} else {})
                 \<union> (if truthy (legacy_max rule) \<and> truthy (duration rule) then {kb} else {})"
    and "kv (redisClient s') kmin
           = (if hasMinLimit rule
              then kv (redisClient (snd (limitMin s rule (nullish (minInterval rule) 0) actor factor)))
                     kmin
              else kv (redisClient s) kmin)"
    and "if truthy (legacy_max rule) \<and> truthy (duration rule)
         then Some (kv (redisClient s') kb)
                = map_option (\<lambda>p. kv (redisClient (snd p)) kb) (limitBucket s synth1 actor factor)
         else kv (redisClient s') kb = kv (redisClient s) kb"
    and "k \<noteq> kmin \<Longrightarrow> k \<noteq> kb \<Longrightarrow> kv (redisClient s') k = kv (redisClient s) k"
    and "now s' = now s" and "disabled s' = disabled s"
  proof -
    show "\<exists>cmds. sent (redisClient s') = sent (redisClient s) @ cmds
           \<and> command_key ` set cmds
               = (if hasMinLimit rule then {kmin} else {})
                 \<union> (if truthy (legacy_max rule) \<and> truthy (duration rule) then {kb} else {})"
    proof (cases "truthy (legacy_max rule) \<and> truthy (duration rule)")
      case True
      with st obtain r where lb: "limitBucket s1 synth1 actor factor = Some (r, s')" by auto
      from limitBucket_commands[OF lb] obtain cmds2
        where "sent (redisClient s') = sent (redisClient s1) @ cmds2"
          and "command_key ` set cmds2 = {kb}"
        unfolding kb_def by blast
      with sent1 keys1 True
      have "sent (redisClient s') = sent (redisClient s) @ (cmds1 @ cmds2)
           \<and> command_key ` set (cmds1 @ cmds2)
               = (if hasMinLimit rule then {kmin} else {})
                 \<union> (if truthy (legacy_max rule) \<and> truthy (duration rule) then {kb} else {})"
        by (simp add: image_Un)
      then show ?thesis by (rule exI)
    next
      case False
      then have nb: "(truthy (legacy_max rule) \<and> truthy (duration rule)) = False" by simp
      from st have "s' = s1" unfolding nb by simp
      with sent1 keys1
      have "sent (redisClient s') = sent (redisClient s) @ cmds1
           \<and> command_key ` set cmds1
               = (if hasMinLimit rule then {kmin} else {})
                 \<union> (if truthy (legacy_max rule) \<and> truthy (duration rule) then {kb} else {})"
        unfolding nb by simp
      then show ?thesis by (rule exI)
    qed
  next
    show "kv (redisClient s') kmin
           = (if hasMinLimit rule
              then kv (redisClient (snd (limitMin s rule (nullish (minInterval rule) 0) actor factor)))
                     kmin
              else kv (redisClient s) kmin)"
    proof (cases "truthy (legacy_max rule) \<and> truthy (duration rule)")
      case True
      with st obtain r where lb: "limitBucket s1 synth1 actor factor = Some (r, s')" by auto
      from limitBucket_frame(3)[OF lb, of kmin] key_neq
      have "kv (redisClient s') kmin = kv (redisClient s1) kmin"
        unfolding kb_def by simp
      with kvmin1 show ?thesis by simp
    next
      case False
      then have nb: "(truthy (legacy_max rule) \<and> truthy (duration rule)) = False" by simp
      from st have "s' = s1" unfolding nb by simp
      with kvmin1 show ?thesis by simp
    qed
  next
    show "if truthy (legacy_max rule) \<and> truthy (duration rule)
         then Some (kv (redisClient s') kb)
                = map_option (\<lambda>p. kv (redisClient (snd p)) kb) (limitBucket s synth1 actor factor)
         else kv (redisClient s') kb = kv (redisClient s) kb"
    proof (cases "truthy (legacy_max rule) \<and> truthy (duration rule)")
      case True
      with st obtain r where lb: "limitBucket s1 synth1 actor factor = Some (r, s')" by auto
      have "map_option (\<lambda>p. kv (redisClient (snd p)) kb) (limitBucket s1 synth1 actor factor)
          = map_option (\<lambda>p. kv (redisClient (snd p)) kb) (limitBucket s synth1 actor factor)"
        unfolding kb_def
        by (rule limitBucket_kv_cong) (use now1 kv1[OF key_neq] in \<open>simp_all add: kb_def\<close>)
      with lb True show ?thesis by simp
    next
      case False
      then have nb: "(truthy (legacy_max rule) \<and> truthy (duration rule)) = False" by simp
      from st have "s' = s1" unfolding nb by simp
      with kv1[OF key_neq] show ?thesis unfolding nb by simp
    qed
  next
    assume k: "k \<noteq> kmin" "k \<noteq> kb"
    show "kv (redisClient s') k = kv (redisClient s) k"
    proof (cases "truthy (legacy_max rule) \<and> truthy (duration rule)")
      case True
      with st obtain r where lb: "limitBucket s1 synth1 actor factor = Some (r, s')" by auto
      from limitBucket_frame(3)[OF lb, of k] k(2)
      have "kv (redisClient s') k = kv (redisClient s1) k"
        unfolding kb_def by simp
      with kv1[OF k(1)] show ?thesis by simp
    next
      case False
      then have nb: "(truthy (legacy_max rule) \<and> truthy (duration rule)) = False" by simp
      from st have "s' = s1" unfolding nb by simp
      with kv1[OF k(1)] show ?thesis by simp
    qed
  next
    show "now s' = now s"
    proof (cases "truthy (legacy_max rule) \<and> truthy (duration rule)")
      case True
      with st obtain r where lb: "limitBucket s1 synth1 actor factor = Some (r, s')" by auto
      from limitBucket_frame(1)[OF lb] now1 show ?thesis by simp
    next
      case False
      then have nb: "(truthy (legacy_max rule) \<and> truthy (duration rule)) = False" by simp
      from st have "s' = s1" unfolding nb by simp
      with now1 show ?thesis by simp
    qed
  next
    show "disabled s' = disabled s"
    proof (cases "truthy (legacy_max rule) \<and> truthy (duration rule)")
      case True
      with st obtain r where lb: "limitBucket s1 synth1 actor factor = Some (r, s')" by auto
      from limitBucket_frame(2)[OF lb] dis1 show ?thesis by simp
    next
      case False
      then have nb: "(truthy (legacy_max rule) \<and> truthy (duration rule)) = False" by simp
      from st have "s' = s1" unfolding nb by simp
      with dis1 show ?thesis by simp
    qed
  qed
qed

lemma limitLegacy_None_iff:
  "limitLegacy s rule actor factor = None \<longleftrightarrow>
     truthy (legacy_max rule) \<and> truthy (duration rule)
     \<and> Math_round (nullish (duration rule) 0 / nullish (legacy_max rule) 0) = 0
     \<and> 0 < c (stored s (''rl_'' @ actor @ ''_'' @ legacy_key rule))"
proof -
  have "limitLegacy s rule actor factor = None
      \<longleftrightarrow> map_option fst (limitLegacy s rule actor factor) = None"
    by simp
  also have "\<dots> \<longleftrightarrow> truthy (legacy_max rule) \<and> truthy (duration rule)
      \<and> limitBucket s
           \<lparr>key = legacy_key rule, bucket_size = nullish (legacy_max rule) 0,
            dripRate = Some (Math_round (nullish (duration rule) 0 / nullish (legacy_max rule) 0)),
            dripSize = Some 1\<rparr> actor factor = None"
  proof (cases "truthy (legacy_max rule) \<and> truthy (duration rule)")
    case True
    then show ?thesis by (simp add: limitLegacy_info Let_def)
  next
    case False
    then have nb: "(truthy (legacy_max rule) \<and> truthy (duration rule)) = False" by simp
    have l: "map_option fst (limitLegacy s rule actor factor) \<noteq> None"
      by (simp add: limitLegacy_info Let_def nb)
    from False l show ?thesis by blast
  qed
  also have "\<dots> \<longleftrightarrow> truthy (legacy_max rule) \<and> truthy (duration rule)
     \<and> Math_round (nullish (duration rule) 0 / nullish (legacy_max rule) 0) = 0
     \<and> 0 < c (stored s (''rl_'' @ actor @ ''_'' @ legacy_key rule))"
    unfolding limitBucket_None_iff by (simp add: nullish_def createLimitKey_def)
  finally show ?thesis .
qed

text \<open>
  C2. For a legacy rule, \<^verbatim>\<open>limit\<close> (not disabled):

  \<^item> returns the merge, in the words of the specification (\<open>merge_spec\<close>), of the results
    of the sub-limiters, each run on the state \<^verbatim>\<open>limit\<close> was called in. The min-interval
    limiter contributes a result exactly when \<^verbatim>\<open>minInterval\<close> is set and not zero; the
    bucket limiter contributes one exactly when \<^verbatim>\<open>max\<close> and \<^verbatim>\<open>duration\<close> are both
    set and not zero, on the rule of size \<^verbatim>\<open>max\<close>, drip rate \<open>round (duration / max)\<close>
    and drip size 1. A missing result is \<open>None\<close>. The factor is the argument, or 1 when it
    is left out.
  \<^item> runs the min-interval limiter exactly when \<^verbatim>\<open>minInterval\<close> is set and not zero, and
    the bucket limiter exactly when \<^verbatim>\<open>max\<close> and \<^verbatim>\<open>duration\<close> are both set and not
    zero: the keys of the commands it sends are the min-interval key when the first runs
    and the bucket key when the second runs, and no others; the store holds under the
    min-interval key what the min-interval limiter run on the initial state leaves there
    when it runs, and under the bucket key what the bucket limiter run on the initial state
    leaves there when it runs; a key whose limiter does not run, and every other key, holds
    what it held; the clock and the flag are as they were.
  \<^item> has no result here exactly when the bucket limiter runs with the drip rate
    \<open>round (duration / max) = 0\<close> on a stored count above 0: the source then divides by
    zero, and its \<^verbatim>\<open>Infinity\<close> or \<^verbatim>\<open>NaN\<close> is not a number of this embedding.
\<close>

theorem legacy_merge:
  assumes "\<not> disabled s"
  shows "map_option fst (limit s (Legacy rule) actor factor_arg) =
    (let factor = (case factor_arg of None \<Rightarrow> 1 | Some f \<Rightarrow> f);
         min_result =
           (case minInterval rule of
              None \<Rightarrow> None
            | Some mi \<Rightarrow> if mi \<noteq> 0 then Some (fst (limitMin s rule mi actor factor)) else None)
     in case (legacy_max rule, duration rule) of
          (Some mx, Some d) \<Rightarrow>
            if mx \<noteq> 0 \<and> d \<noteq> 0
            then map_option (\<lambda>b. merge_spec min_result (Some b))
                   (map_option fst
                      (limitBucket s
                         \<lparr>key = legacy_key rule, bucket_size = mx,
                          dripRate = Some (of_int (round (d / mx))), dripSize = Some 1\<rparr>
                         actor factor))
            else Some (merge_spec min_result None)
        | _ \<Rightarrow> Some (merge_spec min_result None))
   \<and> (limit s (Legacy rule) actor factor_arg = Some (info, s') \<longrightarrow>
       (let factor = (case factor_arg of None \<Rightarrow> 1 | Some f \<Rightarrow> f);
            min_key = ''rl_'' @ actor @ ''_'' @ legacy_key rule @ ''_min'';
            bucket_key = ''rl_'' @ actor @ ''_'' @ legacy_key rule;
            min_runs = (case minInterval rule of None \<Rightarrow> False | Some mi \<Rightarrow> mi \<noteq> 0);
            bucket_runs =
              (case (legacy_max rule, duration rule) of
                 (Some mx, Some d) \<Rightarrow> mx \<noteq> 0 \<and> d \<noteq> 0
               | _ \<Rightarrow> False)
        in (\<exists>cmds. sent (redisClient s') = sent (redisClient s) @ cmds
              \<and> command_key ` set cmds
                  = (if min_runs then {min_key} else {}) \<union> (if bucket_runs then {bucket_key} else {}))
           \<and> (case minInterval rule of
                 None \<Rightarrow> kv (redisClient s') min_key = kv (redisClient s) min_key
               | Some mi \<Rightarrow>
                   kv (redisClient s') min_key
                     = (if mi \<noteq> 0
                        then kv (redisClient (snd (limitMin s rule mi actor factor))) min_key
                        else kv (redisClient s) min_key))
           \<and> (case (legacy_max rule, duration rule) of
                 (Some mx, Some d) \<Rightarrow>
                   if mx \<noteq> 0 \<and> d \<noteq> 0
                   then Some (kv (redisClient s') bucket_key)
                          = map_option (\<lambda>p. kv (redisClient (snd p)) bucket_key)
                              (limitBucket s
                                 \<lparr>key = legacy_key rule, bucket_size = mx,
                                  dripRate = Some (of_int (round (d / mx))), dripSize = Some 1\<rparr>
                                 actor factor)
                   else kv (redisClient s') bucket_key = kv (redisClient s) bucket_key
               | _ \<Rightarrow> kv (redisClient s') bucket_key = kv (redisClient s) bucket_key)
           \<and> (\<forall>k. k \<noteq> min_key \<and> k \<noteq> bucket_key \<longrightarrow>
                 kv (redisClient s') k = kv (redisClient s) k)
           \<and> now s' = now s \<and> disabled s' = disabled s))
   \<and> (limit s (Legacy rule) actor factor_arg = None \<longleftrightarrow>
       (case (legacy_max rule, duration rule) of
          (Some mx, Some d) \<Rightarrow>
            mx \<noteq> 0 \<and> d \<noteq> 0 \<and> round (d / mx) = 0
            \<and> 0 < c (stored s (''rl_'' @ actor @ ''_'' @ legacy_key rule))
        | _ \<Rightarrow> False))"
proof (intro conjI impI)
  show "map_option fst (limit s (Legacy rule) actor factor_arg) =
    (let factor = (case factor_arg of None \<Rightarrow> 1 | Some f \<Rightarrow> f);
         min_result =
           (case minInterval rule of
              None \<Rightarrow> None
            | Some mi \<Rightarrow> if mi \<noteq> 0 then Some (fst (limitMin s rule mi actor factor)) else None)
     in case (legacy_max rule, duration rule) of
          (Some mx, Some d) \<Rightarrow>
            if mx \<noteq> 0 \<and> d \<noteq> 0
            then map_option (\<lambda>b. merge_spec min_result (Some b))
                   (map_option fst
                      (limitBucket s
                         \<lparr>key = legacy_key rule, bucket_size = mx,
                          dripRate = Some (of_int (round (d / mx))), dripSize = Some 1\<rparr>
                         actor factor))
            else Some (merge_spec min_result None)
        | _ \<Rightarrow> Some (merge_spec min_result None))"
    using assms
    by (simp add: limit_def limitLegacy_info Let_def hasMinLimit_def truthy_def nullish_def
        Math_round_def round_def split: option.split)
next
  assume "limit s (Legacy rule) actor factor_arg = Some (info, s')"
  with assms have run: "limitLegacy s rule actor (nullish factor_arg 1) = Some (info, s')"
    by (simp add: limit_def)
  note e = limitLegacy_effects[OF run]
  have all: "\<forall>k. k \<noteq> createLimitKey (Legacy rule) actor (Some ''min'')
        \<and> k \<noteq> createLimitKey
             (Bucket \<lparr>key = legacy_key rule, bucket_size = nullish (legacy_max rule) 0,
                  dripRate = Some (Math_round (nullish (duration rule) 0 / nullish (legacy_max rule) 0)),
                  dripSize = Some 1\<rparr>) actor None
        \<longrightarrow> kv (redisClient s') k = kv (redisClient s) k"
    using e(4) by blast
  from e(1,2,3,5,6) all
  show "(let factor = (case factor_arg of None \<Rightarrow> 1 | Some f \<Rightarrow> f);
            min_key = ''rl_'' @ actor @ ''_'' @ legacy_key rule @ ''_min'';
            bucket_key = ''rl_'' @ actor @ ''_'' @ legacy_key rule;
            min_runs = (case minInterval rule of None \<Rightarrow> False | Some mi \<Rightarrow> mi \<noteq> 0);
            bucket_runs =
              (case (legacy_max rule, duration rule) of
                 (Some mx, Some d) \<Rightarrow> mx \<noteq> 0 \<and> d \<noteq> 0
               | _ \<Rightarrow> False)
        in (\<exists>cmds. sent (redisClient s') = sent (redisClient s) @ cmds
              \<and> command_key ` set cmds
                  = (if min_runs then {min_key} else {}) \<union> (if bucket_runs then {bucket_key} else {}))
           \<and> (case minInterval rule of
                 None \<Rightarrow> kv (redisClient s') min_key = kv (redisClient s) min_key
               | Some mi \<Rightarrow>
                   kv (redisClient s') min_key
                     = (if mi \<noteq> 0
                        then kv (redisClient (snd (limitMin s rule mi actor factor))) min_key
                        else kv (redisClient s) min_key))
           \<and> (case (legacy_max rule, duration rule) of
                 (Some mx, Some d) \<Rightarrow>
                   if mx \<noteq> 0 \<and> d \<noteq> 0
                   then Some (kv (redisClient s') bucket_key)
                          = map_option (\<lambda>p. kv (redisClient (snd p)) bucket_key)
                              (limitBucket s
                                 \<lparr>key = legacy_key rule, bucket_size = mx,
                                  dripRate = Some (of_int (round (d / mx))), dripSize = Some 1\<rparr>
                                 actor factor)
                   else kv (redisClient s') bucket_key = kv (redisClient s) bucket_key
               | _ \<Rightarrow> kv (redisClient s') bucket_key = kv (redisClient s) bucket_key)
           \<and> (\<forall>k. k \<noteq> min_key \<and> k \<noteq> bucket_key \<longrightarrow>
                 kv (redisClient s') k = kv (redisClient s) k)
           \<and> now s' = now s \<and> disabled s' = disabled s)"
    unfolding Let_def
    by (cases "minInterval rule"; cases "legacy_max rule"; cases "duration rule")
       (simp_all add: hasMinLimit_def truthy_def nullish_def createLimitKey_def
          Math_round_def round_def cong: if_cong)
next
  show "limit s (Legacy rule) actor factor_arg = None \<longleftrightarrow>
       (case (legacy_max rule, duration rule) of
          (Some mx, Some d) \<Rightarrow>
            mx \<noteq> 0 \<and> d \<noteq> 0 \<and> round (d / mx) = 0
            \<and> 0 < c (stored s (''rl_'' @ actor @ ''_'' @ legacy_key rule))
        | _ \<Rightarrow> False)"
    using assms
    by (simp add: limit_def limitLegacy_None_iff truthy_def nullish_def Math_round_def round_def
        split: option.split)
qed

theorem legacy_merge_witness:
  "\<not> disabled \<lparr>disabled = False, now = 7, redisClient = \<lparr>kv = Map.empty, sent = []\<rparr>\<rparr>
   \<and> map_option fst
        (limit \<lparr>disabled = False, now = 7, redisClient = \<lparr>kv = Map.empty, sent = []\<rparr>\<rparr>
           (Legacy \<lparr>legacy_key = ''k'', duration = Some 10000, legacy_max = Some 10,
                    minInterval = Some 1000\<rparr>) ''a'' None)
     = Some \<lparr>blocked = False, remaining = 0, resetSec = 1, resetMs = 1000,
             fullResetSec = 1, fullResetMs = 1000\<rparr>
   \<and> map_option ((`) command_key \<circ> set \<circ> sent \<circ> redisClient \<circ> snd)
        (limit \<lparr>disabled = False, now = 7, redisClient = \<lparr>kv = Map.empty, sent = []\<rparr>\<rparr>
           (Legacy \<lparr>legacy_key = ''k'', duration = Some 10000, legacy_max = Some 10,
                    minInterval = Some 1000\<rparr>) ''a'' None)
     = Some {''rl_a_k_min'', ''rl_a_k''}
   \<and> map_option fst
        (limit \<lparr>disabled = False, now = 7, redisClient = \<lparr>kv = Map.empty, sent = []\<rparr>\<rparr>
           (Legacy \<lparr>legacy_key = ''k'', duration = Some 10000, legacy_max = Some 10,
                    minInterval = None\<rparr>) ''a'' None)
     = Some \<lparr>blocked = False, remaining = 1, resetSec = 0, resetMs = 0,
             fullResetSec = 1, fullResetMs = 1000\<rparr>
   \<and> map_option ((`) command_key \<circ> set \<circ> sent \<circ> redisClient \<circ> snd)
        (limit \<lparr>disabled = False, now = 7, redisClient = \<lparr>kv = Map.empty, sent = []\<rparr>\<rparr>
           (Legacy \<lparr>legacy_key = ''k'', duration = Some 10000, legacy_max = Some 10,
                    minInterval = None\<rparr>) ''a'' None)
     = Some {''rl_a_k''}"
proof -
  let ?s = "\<lparr>disabled = False, now = 7, redisClient = \<lparr>kv = Map.empty, sent = []\<rparr>\<rparr>"
  let ?ra = "\<lparr>legacy_key = ''k'', duration = Some 10000, legacy_max = Some 10,
              minInterval = Some 1000\<rparr>"
  let ?rb = "\<lparr>legacy_key = ''k'', duration = Some 10000, legacy_max = Some 10,
              minInterval = None\<rparr>"
  let ?ia = "\<lparr>blocked = False, remaining = 0, resetSec = 1, resetMs = 1000,
             fullResetSec = 1, fullResetMs = 1000\<rparr>"
  let ?ib = "\<lparr>blocked = False, remaining = 1, resetSec = 0, resetMs = 0,
             fullResetSec = 1, fullResetMs = 1000\<rparr>"
  have d: "\<not> disabled ?s" by simp
  note A = legacy_merge[OF d, where rule = ?ra and actor = "''a''" and factor_arg = None]
  note B = legacy_merge[OF d, where rule = ?rb and actor = "''a''" and factor_arg = None]
  from A[THEN conjunct1]
  have ia: "map_option fst (limit ?s (Legacy ?ra) ''a'' None) = Some ?ia"
    by (simp add: limitMin_def limitBucket_def update_expiration_def update_drips_def
        getLimitCounter_eq stored_def setLimitCounter_def redis_set_def createLimitKey_def
        js_div_def Math_ceil_def nullish_def merge_spec_def Let_def)
  then obtain sa where ra: "limit ?s (Legacy ?ra) ''a'' None = Some (?ia, sa)"
    by (cases "limit ?s (Legacy ?ra) ''a'' None") auto
  from A[THEN conjunct2, THEN conjunct1, THEN mp, OF ra]
  have "\<exists>cmds. sent (redisClient sa) = sent (redisClient ?s) @ cmds
          \<and> command_key ` set cmds = {''rl_a_k_min''} \<union> {''rl_a_k''}"
    by (simp add: Let_def)
  then have ka: "command_key ` set (sent (redisClient sa)) = {''rl_a_k_min'', ''rl_a_k''}"
    by auto
  from B[THEN conjunct1]
  have ib: "map_option fst (limit ?s (Legacy ?rb) ''a'' None) = Some ?ib"
    by (simp add: limitBucket_def update_drips_def
        getLimitCounter_eq stored_def setLimitCounter_def redis_set_def createLimitKey_def
        js_div_def Math_ceil_def nullish_def merge_spec_def Let_def)
  then obtain sb where rb: "limit ?s (Legacy ?rb) ''a'' None = Some (?ib, sb)"
    by (cases "limit ?s (Legacy ?rb) ''a'' None") auto
  from B[THEN conjunct2, THEN conjunct1, THEN mp, OF rb]
  have "\<exists>cmds. sent (redisClient sb) = sent (redisClient ?s) @ cmds
          \<and> command_key ` set cmds = {} \<union> {''rl_a_k''}"
    by (simp add: Let_def)
  then have kb: "command_key ` set (sent (redisClient sb)) = {''rl_a_k''}"
    by auto
  from d ia ra ka ib rb kb show ?thesis by simp
qed

subsection \<open>The disabled flag\<close>

text \<open>
  C4. When the service is disabled, \<^verbatim>\<open>limit\<close> answers not blocked, with
  \<^verbatim>\<open>Number.MAX_SAFE_INTEGER\<close> (2 to the 53 minus 1, the value the source uses as its
  maximum) calls remaining and the four resets zero, whatever the rule, the actor, the
  factor and the store hold. The state it returns is the state it was given: the store
  content is unchanged and no command, neither a read nor a write, was sent.
\<close>

theorem disabled_short_circuit:
  assumes "disabled s"
  shows "limit s rule actor factor_arg =
           Some (\<lparr>blocked = False, remaining = MAX_SAFE_INTEGER, resetSec = 0, resetMs = 0,
                   fullResetSec = 0, fullResetMs = 0\<rparr>, s)
         \<and> MAX_SAFE_INTEGER = 9007199254740991"
  using assms by (simp add: limit_def MAX_SAFE_INTEGER_def)

theorem disabled_short_circuit_witness:
  "disabled \<lparr>disabled = True, now = 0, redisClient = \<lparr>kv = Map.empty, sent = []\<rparr>\<rparr>
   \<and> limit \<lparr>disabled = True, now = 0, redisClient = \<lparr>kv = Map.empty, sent = []\<rparr>\<rparr>
        (Bucket \<lparr>key = ''k'', bucket_size = 5, dripRate = None, dripSize = None\<rparr>) ''a'' None
     = Some (\<lparr>blocked = False, remaining = 9007199254740991, resetSec = 0, resetMs = 0,
               fullResetSec = 0, fullResetMs = 0\<rparr>,
             \<lparr>disabled = True, now = 0, redisClient = \<lparr>kv = Map.empty, sent = []\<rparr>\<rparr>)"
  using disabled_short_circuit
    [of "\<lparr>disabled = True, now = 0, redisClient = \<lparr>kv = Map.empty, sent = []\<rparr>\<rparr>"
        "Bucket \<lparr>key = ''k'', bucket_size = 5, dripRate = None, dripSize = None\<rparr>" "''a''" None]
  by simp

subsection \<open>Resets and remaining calls\<close>

lemma limitBucket_remaining_reset:
  assumes "limitBucket s rule actor factor = Some (info, s')" and "remaining info > 0"
  shows "\<not> blocked info \<and> resetSec info = 0 \<and> resetMs info = 0"
  using assms
  by (auto simp: limitBucket_def getLimitCounter_eq Let_def Math_ceil_def
      split: Option.bind_splits if_splits)

lemma limitMin_remaining_reset:
  assumes "limitMin s rule mi actor factor = (info, s')" and "remaining info \<ge> 1"
  shows "\<not> blocked info \<and> resetSec info = 0 \<and> resetMs info = 0"
  using assms
  by (auto simp: limitMin_def getLimitCounter_eq Let_def split: if_splits)

lemma merge_spec_remaining_reset:
  assumes "remaining (merge_spec a b) \<ge> 1"
    and "\<And>x. a = Some x \<Longrightarrow> remaining x \<ge> 1 \<Longrightarrow> \<not> blocked x \<and> resetSec x = 0 \<and> resetMs x = 0"
    and "\<And>y. b = Some y \<Longrightarrow> remaining y \<ge> 1 \<Longrightarrow> \<not> blocked y \<and> resetSec y = 0 \<and> resetMs y = 0"
  shows "\<not> blocked (merge_spec a b) \<and> resetSec (merge_spec a b) = 0 \<and> resetMs (merge_spec a b) = 0"
proof -
  have a: "\<not> blocked x \<and> resetSec x = 0 \<and> resetMs x = 0" if "a = Some x" for x
  proof (rule assms(2)[OF that])
    from assms(1) that show "1 \<le> remaining x" by (simp add: merge_spec_def)
  qed
  have b: "\<not> blocked y \<and> resetSec y = 0 \<and> resetMs y = 0" if "b = Some y" for y
  proof (rule assms(3)[OF that])
    from assms(1) that show "1 \<le> remaining y" by (simp add: merge_spec_def)
  qed
  show ?thesis
  proof (cases a)
    case None
    note an = this
    show ?thesis
    proof (cases b)
      case None
      with an show ?thesis by (simp add: merge_spec_def)
    next
      case (Some y)
      with an b[OF Some] show ?thesis by (simp add: merge_spec_def)
    qed
  next
    case (Some x)
    note ax = this
    show ?thesis
    proof (cases b)
      case None
      with ax a[OF ax] show ?thesis by (simp add: merge_spec_def)
    next
      case (Some y)
      with ax a[OF ax] b[OF Some] show ?thesis by (simp add: merge_spec_def)
    qed
  qed
qed


lemma limitLegacy_remaining_reset:
  assumes "limitLegacy s rule actor factor = Some (info, s')" and "remaining info \<ge> 1"
  shows "\<not> blocked info \<and> resetSec info = 0 \<and> resetMs info = 0"
proof -
  define m where "m = (if hasMinLimit rule
             then Some (fst (limitMin s rule (nullish (minInterval rule) 0) actor factor))
             else None)"
  define synth where "synth = \<lparr>key = legacy_key rule, bucket_size = nullish (legacy_max rule) 0,
      dripRate = Some (Math_round (nullish (duration rule) 0 / nullish (legacy_max rule) 0)),
      dripSize = Some 1\<rparr>"
  have m_ok: "\<not> blocked x \<and> resetSec x = 0 \<and> resetMs x = 0" if "m = Some x" "remaining x \<ge> 1" for x
  proof -
    from that(1) have x: "x = fst (limitMin s rule (nullish (minInterval rule) 0) actor factor)"
      unfolding m_def by (cases "hasMinLimit rule") simp_all
    show ?thesis
      using limitMin_remaining_reset
        [OF surjective_pairing, of s rule "nullish (minInterval rule) 0" actor factor] that(2)
      unfolding x by simp
  qed
  have info: "map_option fst (limitLegacy s rule actor factor) =
      (if truthy (legacy_max rule) \<and> truthy (duration rule)
       then map_option (\<lambda>b. merge_spec m (Some b)) (map_option fst (limitBucket s synth actor factor))
       else Some (merge_spec m None))"
    unfolding limitLegacy_info m_def synth_def Let_def by (rule refl)
  show ?thesis
  proof (cases "truthy (legacy_max rule) \<and> truthy (duration rule)")
    case True
    with info assms(1) have "map_option (\<lambda>b. merge_spec m (Some b)) (map_option fst (limitBucket s synth actor factor)) = Some info"
      by simp
    then obtain y sy where r: "limitBucket s synth actor factor = Some (y, sy)"
      and i: "info = merge_spec m (Some y)"
      by (cases "limitBucket s synth actor factor") auto
    show ?thesis unfolding i
    proof (rule merge_spec_remaining_reset)
      show "1 \<le> remaining (merge_spec m (Some y))" using assms(2) i by simp
      show "\<not> blocked x \<and> resetSec x = 0 \<and> resetMs x = 0" if "m = Some x" "1 \<le> remaining x" for x
        using that by (rule m_ok)
      show "\<not> blocked z \<and> resetSec z = 0 \<and> resetMs z = 0" if "Some y = Some z" "1 \<le> remaining z" for z
        using limitBucket_remaining_reset[OF r] that by simp
    qed
  next
    case False
    with info assms(1) have i: "info = merge_spec m None" by simp
    show ?thesis unfolding i
    proof (rule merge_spec_remaining_reset)
      show "1 \<le> remaining (merge_spec m None)" using assms(2) i by simp
      show "\<not> blocked x \<and> resetSec x = 0 \<and> resetMs x = 0" if "m = Some x" "1 \<le> remaining x" for x
        using that by (rule m_ok)
      show "\<not> blocked z \<and> resetSec z = 0 \<and> resetMs z = 0" if "None = Some z" "1 \<le> remaining z" for z
        using that by simp
    qed
  qed
qed

text \<open>
  C5, as the code has it. Whenever \<^verbatim>\<open>limit\<close> returns a \<^verbatim>\<open>LimitInfo\<close> with at least one
  call remaining, the call was not blocked and \<^verbatim>\<open>resetSec\<close> and \<^verbatim>\<open>resetMs\<close> are both
  zero. (A call that is let through and uses the last slot returns not blocked with nothing
  remaining, and then the two resets give the time until the next call is permitted, as
  the comments on the fields of \<^verbatim>\<open>LimitInfo\<close> say.)
\<close>

theorem reset_zero_when_calls_remain:
  assumes "limit s rule actor factor_arg = Some (info, s')" and "remaining info \<ge> 1"
  shows "\<not> blocked info \<and> resetSec info = 0 \<and> resetMs info = 0"
proof (cases "disabled s")
  case True
  with assms show ?thesis by (auto simp: limit_def)
next
  case False
  show ?thesis
  proof (cases rule)
    case (Bucket b)
    with False assms show ?thesis
      using limitBucket_remaining_reset[of s b actor "nullish factor_arg 1" info s']
      by (simp add: limit_def)
  next
    case (Legacy l)
    with False assms show ?thesis
      using limitLegacy_remaining_reset[of s l actor "nullish factor_arg 1" info s']
      by (simp add: limit_def)
  qed
qed

theorem reset_zero_when_calls_remain_witness:
  "limit \<lparr>disabled = False, now = 7, redisClient = \<lparr>kv = Map.empty, sent = []\<rparr>\<rparr>
        (Bucket \<lparr>key = ''k'', bucket_size = 5, dripRate = None, dripSize = None\<rparr>) ''a'' None
     = Some (\<lparr>blocked = False, remaining = 4, resetSec = 0, resetMs = 0, fullResetSec = 1,
              fullResetMs = 1000\<rparr>,
             \<lparr>disabled = False, now = 7,
              redisClient = \<lparr>kv = [''rl_a_k'' \<mapsto> (\<lparr>t = 7, c = 1\<rparr>, 1000)],
                             sent = [GET ''rl_a_k'', SET ''rl_a_k'' \<lparr>t = 7, c = 1\<rparr> 1000]\<rparr>\<rparr>)
   \<and> (1::real) \<le> 4
   \<and> \<not> blocked \<lparr>blocked = False, remaining = 4, resetSec = 0, resetMs = 0, fullResetSec = 1,
              fullResetMs = 1000\<rparr>"
proof -
  have run: "limit \<lparr>disabled = False, now = 7, redisClient = \<lparr>kv = Map.empty, sent = []\<rparr>\<rparr>
        (Bucket \<lparr>key = ''k'', bucket_size = 5, dripRate = None, dripSize = None\<rparr>) ''a'' None
     = Some (\<lparr>blocked = False, remaining = 4, resetSec = 0, resetMs = 0, fullResetSec = 1,
              fullResetMs = 1000\<rparr>,
             \<lparr>disabled = False, now = 7,
              redisClient = \<lparr>kv = [''rl_a_k'' \<mapsto> (\<lparr>t = 7, c = 1\<rparr>, 1000)],
                             sent = [GET ''rl_a_k'', SET ''rl_a_k'' \<lparr>t = 7, c = 1\<rparr> 1000]\<rparr>\<rparr>)"
    by (simp add: limit_def limitBucket_def update_drips_def
      getLimitCounter_eq stored_def setLimitCounter_def redis_set_def createLimitKey_def
      js_div_def Math_ceil_def nullish_def Let_def)
  from reset_zero_when_calls_remain[OF run] run show ?thesis by simp
qed

text \<open>
  C5 as stated fails: the first call on a bucket of size 1 is not blocked, and it returns
  \<^verbatim>\<open>resetMs\<close> 1000 and \<^verbatim>\<open>resetSec\<close> 1.
\<close>

theorem not_blocked_reset_counterexample:
  "map_option (blocked \<circ> fst)
     (limit \<lparr>disabled = False, now = 7, redisClient = \<lparr>kv = Map.empty, sent = []\<rparr>\<rparr>
        (Bucket \<lparr>key = ''k'', bucket_size = 1, dripRate = None, dripSize = None\<rparr>) ''a'' None)
     = Some False
   \<and> map_option (resetMs \<circ> fst)
     (limit \<lparr>disabled = False, now = 7, redisClient = \<lparr>kv = Map.empty, sent = []\<rparr>\<rparr>
        (Bucket \<lparr>key = ''k'', bucket_size = 1, dripRate = None, dripSize = None\<rparr>) ''a'' None)
     = Some 1000
   \<and> map_option (resetSec \<circ> fst)
     (limit \<lparr>disabled = False, now = 7, redisClient = \<lparr>kv = Map.empty, sent = []\<rparr>\<rparr>
        (Bucket \<lparr>key = ''k'', bucket_size = 1, dripRate = None, dripSize = None\<rparr>) ''a'' None)
     = Some 1"
  by (simp add: limit_def limitBucket_def update_drips_def
      getLimitCounter_eq stored_def setLimitCounter_def redis_set_def createLimitKey_def
      js_div_def Math_ceil_def nullish_def Let_def)

subsection \<open>No write when blocked\<close>

text \<open>
  C6. A call of the bucket limiter or of the min-interval limiter that returns blocked
  sends no write: the only command it sends is the read of its key, and the content of
  the store, the clock and the flag are as they were.
\<close>

theorem blocked_no_write:
  "(limitBucket s rule actor factor = Some (info, s') \<and> blocked info \<longrightarrow>
      kv (redisClient s') = kv (redisClient s)
      \<and> sent (redisClient s') = sent (redisClient s) @ [GET (createLimitKey (Bucket rule) actor None)]
      \<and> disabled s' = disabled s \<and> now s' = now s)
   \<and> (limitMin sm lrule mi actor factor = (infom, sm') \<and> blocked infom \<longrightarrow>
      kv (redisClient sm') = kv (redisClient sm)
      \<and> sent (redisClient sm') = sent (redisClient sm) @ [GET (createLimitKey (Legacy lrule) actor (Some ''min''))]
      \<and> disabled sm' = disabled sm \<and> now sm' = now sm)"
proof (intro conjI impI)
  assume a: "limitBucket s rule actor factor = Some (info, s') \<and> blocked info"
  note f = limitBucket_blocked_frame[OF conjunct1[OF a] conjunct2[OF a]]
  show "kv (redisClient s') = kv (redisClient s)" by (simp add: f)
  show "sent (redisClient s') = sent (redisClient s) @ [GET (createLimitKey (Bucket rule) actor None)]"
    by (simp add: f)
  show "disabled s' = disabled s" by (simp add: f)
  show "now s' = now s" by (simp add: f)
next
  assume a: "limitMin sm lrule mi actor factor = (infom, sm') \<and> blocked infom"
  note f = limitMin_blocked_frame[OF conjunct1[OF a] conjunct2[OF a]]
  show "kv (redisClient sm') = kv (redisClient sm)" by (simp add: f)
  show "sent (redisClient sm') = sent (redisClient sm) @ [GET (createLimitKey (Legacy lrule) actor (Some ''min''))]"
    by (simp add: f)
  show "disabled sm' = disabled sm" by (simp add: f)
  show "now sm' = now sm" by (simp add: f)
qed

theorem blocked_no_write_witness:
  "limitBucket
      \<lparr>disabled = False, now = 7,
       redisClient = \<lparr>kv = [''rl_a_k'' \<mapsto> (\<lparr>t = 7, c = 5\<rparr>, 5000)], sent = []\<rparr>\<rparr>
      \<lparr>key = ''k'', bucket_size = 5, dripRate = Some 1000, dripSize = Some 1\<rparr> ''a'' 1
    = Some (\<lparr>blocked = True, remaining = 0, resetSec = 1, resetMs = 1000, fullResetSec = 5,
              fullResetMs = 5000\<rparr>,
            \<lparr>disabled = False, now = 7,
             redisClient = \<lparr>kv = [''rl_a_k'' \<mapsto> (\<lparr>t = 7, c = 5\<rparr>, 5000)],
                            sent = [GET ''rl_a_k'']\<rparr>\<rparr>)
   \<and> limitMin
      \<lparr>disabled = False, now = 7,
       redisClient = \<lparr>kv = [''rl_a_k_min'' \<mapsto> (\<lparr>t = 7, c = 1\<rparr>, 5000)], sent = []\<rparr>\<rparr>
      \<lparr>legacy_key = ''k'', duration = None, legacy_max = None, minInterval = Some 5000\<rparr>
      5000 ''a'' 1
    = (\<lparr>blocked = True, remaining = 0, resetSec = 5, resetMs = 5000, fullResetSec = 5,
              fullResetMs = 5000\<rparr>,
            \<lparr>disabled = False, now = 7,
             redisClient = \<lparr>kv = [''rl_a_k_min'' \<mapsto> (\<lparr>t = 7, c = 1\<rparr>, 5000)],
                            sent = [GET ''rl_a_k_min'']\<rparr>\<rparr>)"
proof -
  let ?sb = "\<lparr>disabled = False, now = 7,
       redisClient = \<lparr>kv = [''rl_a_k'' \<mapsto> (\<lparr>t = 7, c = 5\<rparr>, 5000)], sent = []\<rparr>\<rparr>"
  let ?rb = "\<lparr>key = ''k'', bucket_size = 5, dripRate = Some 1000, dripSize = Some 1\<rparr>"
  let ?sm = "\<lparr>disabled = False, now = 7,
       redisClient = \<lparr>kv = [''rl_a_k_min'' \<mapsto> (\<lparr>t = 7, c = 1\<rparr>, 5000)], sent = []\<rparr>\<rparr>"
  let ?rm = "\<lparr>legacy_key = ''k'', duration = None, legacy_max = None, minInterval = Some 5000\<rparr>"
  let ?ib = "\<lparr>blocked = True, remaining = 0, resetSec = 1, resetMs = 1000, fullResetSec = 5,
              fullResetMs = 5000\<rparr>"
  let ?sb' = "\<lparr>disabled = False, now = 7,
             redisClient = \<lparr>kv = [''rl_a_k'' \<mapsto> (\<lparr>t = 7, c = 5\<rparr>, 5000)],
                            sent = [GET ''rl_a_k'']\<rparr>\<rparr>"
  let ?im = "\<lparr>blocked = True, remaining = 0, resetSec = 5, resetMs = 5000, fullResetSec = 5,
              fullResetMs = 5000\<rparr>"
  let ?sm' = "\<lparr>disabled = False, now = 7,
             redisClient = \<lparr>kv = [''rl_a_k_min'' \<mapsto> (\<lparr>t = 7, c = 1\<rparr>, 5000)],
                            sent = [GET ''rl_a_k_min'']\<rparr>\<rparr>"
  have run_b: "limitBucket ?sb ?rb ''a'' 1 = Some (?ib, ?sb')"
    by (simp add: limitBucket_def update_drips_def getLimitCounter_eq stored_def js_div_def
        Math_floor_def Math_ceil_def nullish_def createLimitKey_def Let_def)
  have run_m: "limitMin ?sm ?rm 5000 ''a'' 1 = (?im, ?sm')"
    by (simp add: limitMin_def update_expiration_def getLimitCounter_eq stored_def
        Math_ceil_def createLimitKey_def Let_def)
  from blocked_no_write[of ?sb ?rb "''a''" 1 ?ib ?sb' ?sm ?rm 5000 ?im ?sm'] run_b run_m
  show ?thesis by simp
qed

subsection \<open>Store keys\<close>

text \<open>
  C9. The key is \<open>rl_\<close>, the actor, \<open>_\<close> and the rule's key when no subject is present,
  and that followed by \<open>_\<close> and the subject when one is present, that is when the test
  \<^verbatim>\<open>if (subject)\<close> holds of it (a string that is not empty; the source passes none or
  \<open>min\<close>). A read looks up exactly this key and a write stores under exactly this key.
  Every command of a bucket limiter call addresses the key without subject and every
  command of a min-interval limiter call the key with the subject \<open>min\<close>; for the same
  actor and rule key the two keys differ.
\<close>

theorem createLimitKey_format:
  "createLimitKey rule actor None = ''rl_'' @ actor @ ''_'' @ limit_key rule
   \<and> (subject \<noteq> [] \<longrightarrow>
        createLimitKey rule actor (Some subject)
          = ''rl_'' @ actor @ ''_'' @ limit_key rule @ ''_'' @ subject)
   \<and> (limit_key rule = limit_key rule' \<longrightarrow>
        createLimitKey rule actor None \<noteq> createLimitKey rule' actor (Some ''min''))
   \<and> getLimitCounter s rule actor subj =
        (stored s (createLimitKey rule actor subj),
         s\<lparr>redisClient := (redisClient s)
            \<lparr>sent := sent (redisClient s) @ [GET (createLimitKey rule actor subj)]\<rparr>\<rparr>)
   \<and> redisClient (setLimitCounter s rule actor counter px subj) =
        \<lparr>kv = (kv (redisClient s))(createLimitKey rule actor subj \<mapsto> (counter, px)),
         sent = sent (redisClient s) @ [SET (createLimitKey rule actor subj) counter px]\<rparr>
   \<and> (limitBucket s b actor factor = Some (info, s') \<longrightarrow>
        (\<exists>cmds. sent (redisClient s') = sent (redisClient s) @ cmds
           \<and> command_key ` set cmds = {''rl_'' @ actor @ ''_'' @ key b}))
   \<and> (limitMin s l mi actor factor = (info, s') \<longrightarrow>
        (\<exists>cmds. sent (redisClient s') = sent (redisClient s) @ cmds
           \<and> command_key ` set cmds = {''rl_'' @ actor @ ''_'' @ legacy_key l @ ''_min''}))
   \<and> ''rl_'' @ actor @ ''_'' @ key b \<noteq> ''rl_'' @ actor @ ''_'' @ key b @ ''_min''"
proof (intro conjI impI)
  show "createLimitKey rule actor None = ''rl_'' @ actor @ ''_'' @ limit_key rule"
    by (rule createLimitKey_None)
  show "createLimitKey rule actor (Some subject)
          = ''rl_'' @ actor @ ''_'' @ limit_key rule @ ''_'' @ subject" if "subject \<noteq> []"
    using that by (rule createLimitKey_Some)
  show "createLimitKey rule actor None \<noteq> createLimitKey rule' actor (Some ''min'')"
    if "limit_key rule = limit_key rule'"
    using that by (rule createLimitKey_min_distinct)
  show "getLimitCounter s rule actor subj =
        (stored s (createLimitKey rule actor subj),
         s\<lparr>redisClient := (redisClient s)
            \<lparr>sent := sent (redisClient s) @ [GET (createLimitKey rule actor subj)]\<rparr>\<rparr>)"
    by (rule getLimitCounter_eq)
  show "redisClient (setLimitCounter s rule actor counter px subj) =
        \<lparr>kv = (kv (redisClient s))(createLimitKey rule actor subj \<mapsto> (counter, px)),
         sent = sent (redisClient s) @ [SET (createLimitKey rule actor subj) counter px]\<rparr>"
    by (simp add: setLimitCounter_def redis_set_def Let_def)
  show "\<exists>cmds. sent (redisClient s') = sent (redisClient s) @ cmds
           \<and> command_key ` set cmds = {''rl_'' @ actor @ ''_'' @ key b}"
    if "limitBucket s b actor factor = Some (info, s')"
    using limitBucket_commands[OF that] by (simp add: createLimitKey_def)
  show "\<exists>cmds. sent (redisClient s') = sent (redisClient s) @ cmds
           \<and> command_key ` set cmds = {''rl_'' @ actor @ ''_'' @ legacy_key l @ ''_min''}"
    if "limitMin s l mi actor factor = (info, s')"
    using limitMin_commands[OF that] by (simp add: createLimitKey_def)
  show "''rl_'' @ actor @ ''_'' @ key b \<noteq> ''rl_'' @ actor @ ''_'' @ key b @ ''_min''"
    by simp
qed

theorem createLimitKey_format_witness:
  "createLimitKey (Bucket \<lparr>key = ''k'', bucket_size = 5, dripRate = None, dripSize = None\<rparr>)
      ''a'' None = ''rl_a_k''
   \<and> createLimitKey
      (Legacy \<lparr>legacy_key = ''k'', duration = None, legacy_max = None, minInterval = Some 5000\<rparr>)
      ''a'' (Some ''min'') = ''rl_a_k_min''
   \<and> ''min'' \<noteq> ''''
   \<and> limit_key (Bucket \<lparr>key = ''k'', bucket_size = 5, dripRate = None, dripSize = None\<rparr>)
      = limit_key (Legacy \<lparr>legacy_key = ''k'', duration = None, legacy_max = None,
                           minInterval = Some 5000\<rparr>)
   \<and> ''rl_a_k'' \<noteq> ''rl_a_k_min''"
  using createLimitKey_format
    [where rule = "Bucket \<lparr>key = ''k'', bucket_size = 5, dripRate = None, dripSize = None\<rparr>"
       and actor = "''a''" and subject = "''min''"
       and rule' = "Legacy \<lparr>legacy_key = ''k'', duration = None, legacy_max = None,
                            minInterval = Some 5000\<rparr>"]
    createLimitKey_format
    [where rule = "Legacy \<lparr>legacy_key = ''k'', duration = None, legacy_max = None,
                           minInterval = Some 5000\<rparr>"
       and actor = "''a''" and subject = "''min''"]
  by simp

subsection \<open>Successive calls on a bucket\<close>

text \<open>
  A bucket limiter call at the time of the stored counter (or on a counter that is not
  positive) drips nothing: it blocks when the stored count has reached the capacity, and
  otherwise stores the count plus one.
\<close>

lemma LimitCounter_update_all: "counter\<lparr>c := a, t := b\<rparr> = \<lparr>t = b, c = a\<rparr>"
  by (cases counter) simp

lemma Redis_update_all: "r\<lparr>kv := a, sent := b\<rparr> = \<lparr>kv = a, sent = b\<rparr>"
  by (cases r) simp

lemma update_drips_same_time:
  assumes "c counter \<le> 0 \<or> t counter = time_now" and "r \<noteq> 0"
  shows "update_drips time_now r z counter = Some counter"
  using assms by (auto simp: update_drips_def js_div_def Math_floor_def)

lemma limitBucket_same_time:
  assumes "c (stored s (createLimitKey (Bucket rule) actor None)) \<le> 0
           \<or> t (stored s (createLimitKey (Bucket rule) actor None)) = now s"
    and "dripRate rule \<noteq> Some 0" and "dripSize rule \<noteq> Some 0"
  shows "limitBucket s rule actor factor =
    (let k = createLimitKey (Bucket rule) actor None;
         n = c (stored s k);
         cap = bucket_size rule * factor;
         dr = nullish (dripRate rule) 1000;
         ds = nullish (dripSize rule) 1
     in if cap \<le> n
        then Some (\<lparr>blocked = True, remaining = 0,
                    resetSec = Math_ceil (max (dr - (now s - t (stored s k))) 0 / 1000),
                    resetMs = max (dr - (now s - t (stored s k))) 0,
                    fullResetSec = Math_ceil (Math_ceil (n / ds) * dr / 1000),
                    fullResetMs = Math_ceil (n / ds) * dr\<rparr>,
                   s\<lparr>redisClient := (redisClient s)\<lparr>sent := sent (redisClient s) @ [GET k]\<rparr>\<rparr>)
        else Some (\<lparr>blocked = False, remaining = max (cap - (n + 1)) 0,
                    resetSec = Math_ceil ((if 0 < max (cap - (n + 1)) 0 then 0 else max dr 0) / 1000),
                    resetMs = (if 0 < max (cap - (n + 1)) 0 then 0 else max dr 0),
                    fullResetSec = Math_ceil (Math_ceil ((n + 1) / ds) * dr / 1000),
                    fullResetMs = Math_ceil ((n + 1) / ds) * dr\<rparr>,
                   s\<lparr>redisClient :=
                       \<lparr>kv = (kv (redisClient s))
                               (k \<mapsto> (\<lparr>t = now s, c = n + 1\<rparr>, Math_ceil ((n + 1) / ds) * dr)),
                        sent = sent (redisClient s)
                               @ [GET k, SET k \<lparr>t = now s, c = n + 1\<rparr>
                                            (Math_ceil ((n + 1) / ds) * dr)]\<rparr>\<rparr>))"
proof -
  have dr: "nullish (dripRate rule) 1000 \<noteq> 0" and ds: "nullish (dripSize rule) 1 \<noteq> 0"
    using assms(2,3) by (auto simp: nullish_def split: option.splits)
  have u: "update_drips (now s) (nullish (dripRate rule) 1000) (nullish (dripSize rule) 1)
             (stored s (createLimitKey (Bucket rule) actor None))
           = Some (stored s (createLimitKey (Bucket rule) actor None))"
    using assms(1) dr by (rule update_drips_same_time)
  show ?thesis
    by (simp add: limitBucket_def getLimitCounter_eq u js_div_def ds setLimitCounter_def
        redis_set_def Let_def LimitCounter_update_all Redis_update_all)
qed

text \<open>
  C1. For a bucket rule of size 5 with drip rate 1000 and drip size 1, in a service that is
  not disabled and holds no counter for the actor and the rule: six calls of
  \<^verbatim>\<open>limit\<close> one after the other at one clock value (factor left out), each on the store
  the one before wrote, all return, the first five not blocked with 4, 3, 2, 1 and 0
  remaining, the sixth blocked with 0 remaining.
\<close>

theorem bucket_monotonic_fill:
  assumes "\<not> disabled s"
    and "kv (redisClient s) (createLimitKey (Bucket rule) actor None) = None"
    and "bucket_size rule = 5" and "dripRate rule = Some 1000" and "dripSize rule = Some 1"
  shows "\<exists>infos s'. limit_times 6 s (Bucket rule) actor None = Some (infos, s')
           \<and> map (\<lambda>i. (blocked i, remaining i)) infos
               = [(False, 4), (False, 3), (False, 2), (False, 1), (False, 0), (True, 0)]"
  using assms
  by (simp add: eval_nat_numeral limit_def limitBucket_same_time stored_def nullish_def Let_def)

theorem bucket_monotonic_fill_witness:
  "\<not> disabled \<lparr>disabled = False, now = 7, redisClient = \<lparr>kv = Map.empty, sent = []\<rparr>\<rparr>
   \<and> kv (redisClient \<lparr>disabled = False, now = 7, redisClient = \<lparr>kv = Map.empty, sent = []\<rparr>\<rparr>)
        ''rl_a_k'' = None
   \<and> map_option (map blocked \<circ> fst)
       (limit_times 6 \<lparr>disabled = False, now = 7, redisClient = \<lparr>kv = Map.empty, sent = []\<rparr>\<rparr>
          (Bucket \<lparr>key = ''k'', bucket_size = 5, dripRate = Some 1000, dripSize = Some 1\<rparr>)
          ''a'' None)
       = Some [False, False, False, False, False, True]
   \<and> map_option (map remaining \<circ> fst)
       (limit_times 6 \<lparr>disabled = False, now = 7, redisClient = \<lparr>kv = Map.empty, sent = []\<rparr>\<rparr>
          (Bucket \<lparr>key = ''k'', bucket_size = 5, dripRate = Some 1000, dripSize = Some 1\<rparr>)
          ''a'' None)
       = Some [4, 3, 2, 1, 0, 0]"
proof -
  let ?s = "\<lparr>disabled = False, now = 7, redisClient = \<lparr>kv = Map.empty, sent = []\<rparr>\<rparr>"
  let ?r = "\<lparr>key = ''k'', bucket_size = 5, dripRate = Some 1000, dripSize = Some 1\<rparr>"
  from bucket_monotonic_fill[of ?s ?r "''a''"]
  obtain infos s' where run: "limit_times 6 ?s (Bucket ?r) ''a'' None = Some (infos, s')"
    and infos: "map (\<lambda>i. (blocked i, remaining i)) infos
               = [(False, 4), (False, 3), (False, 2), (False, 1), (False, 0), (True, 0)]"
    by auto
  from infos have "map (fst \<circ> (\<lambda>i. (blocked i, remaining i))) infos
      = [False, False, False, False, False, True]"
    and "map (snd \<circ> (\<lambda>i. (blocked i, remaining i))) infos = [4, 3, 2, 1, 0, 0]"
    unfolding map_map[symmetric] by simp_all
  then have "map blocked infos = [False, False, False, False, False, True]"
    and "map remaining infos = [4, 3, 2, 1, 0, 0]"
    by (simp_all add: comp_def)
  with run show ?thesis by simp
qed

text \<open>
  What a bucket limiter call decides, for any factor: the counter that was read is dripped,
  the call is blocked exactly when the dripped count has reached the size times the
  factor, and a call that is let through stores the dripped count plus one.
\<close>

lemma update_drips_returns:
  "r \<noteq> 0 \<Longrightarrow> \<exists>counter1. update_drips time_now r z counter = Some counter1"
  by (simp add: update_drips_def js_div_def)

lemma limitBucket_returns:
  assumes "dripRate rule \<noteq> Some 0" and "dripSize rule \<noteq> Some 0"
  shows "\<exists>info s'. limitBucket s rule actor factor = Some (info, s')"
proof -
  have dr: "nullish (dripRate rule) 1000 \<noteq> 0" and ds: "nullish (dripSize rule) 1 \<noteq> 0"
    using assms by (auto simp: nullish_def split: option.splits)
  from update_drips_returns[OF dr]
  obtain counter1 where u: "update_drips (now s) (nullish (dripRate rule) 1000)
      (nullish (dripSize rule) 1) (stored s (createLimitKey (Bucket rule) actor None)) = Some counter1"
    by blast
  show ?thesis
    by (simp add: limitBucket_def getLimitCounter_eq u js_div_def ds Let_def)
qed

lemma stored_setLimitCounter:
  "stored (setLimitCounter s rule actor counter px subj) (createLimitKey rule actor subj) = counter"
  by (simp add: stored_def setLimitCounter_def redis_set_def Let_def)

lemma limitBucket_decision:
  assumes "limitBucket s rule actor factor = Some (info, s')"
  shows "\<exists>counter1.
           update_drips (now s) (nullish (dripRate rule) 1000) (nullish (dripSize rule) 1)
             (stored s (createLimitKey (Bucket rule) actor None)) = Some counter1
           \<and> blocked info = (bucket_size rule * factor \<le> c counter1)
           \<and> remaining info
               = max (bucket_size rule * factor
                      - (if blocked info then c counter1 else c counter1 + 1)) 0
           \<and> (if blocked info
                then kv (redisClient s') = kv (redisClient s)
                else stored s' (createLimitKey (Bucket rule) actor None)
                       = \<lparr>t = now s, c = c counter1 + 1\<rparr>)"
proof -
  from assms obtain counter1 where
    u: "update_drips (now s) (nullish (dripRate rule) 1000) (nullish (dripSize rule) 1)
          (stored s (createLimitKey (Bucket rule) actor None)) = Some counter1"
    by (auto simp: limitBucket_def getLimitCounter_eq Let_def split: Option.bind_splits)
  from assms have "blocked info = (bucket_size rule * factor \<le> c counter1)
           \<and> remaining info
               = max (bucket_size rule * factor
                      - (if blocked info then c counter1 else c counter1 + 1)) 0
           \<and> (if blocked info
                then kv (redisClient s') = kv (redisClient s)
                else stored s' (createLimitKey (Bucket rule) actor None)
                       = \<lparr>t = now s, c = c counter1 + 1\<rparr>)"
    by (auto simp: limitBucket_def getLimitCounter_eq u stored_setLimitCounter Let_def
        LimitCounter_update_all split: Option.bind_splits if_splits)
  with u show ?thesis by blast
qed

text \<open>
  C7. The factor only scales the capacity: whenever the bucket limiter returns, the call is
  blocked exactly when the dripped count has reached \<open>size * factor\<close>, the calls remaining
  are counted from \<open>size * factor\<close>, and a call that is let through stores the dripped
  count plus exactly 1, whatever the factor. For a bucket rule of size 5 (drip rate and
  drip size not zero) and factor 2, in a service that is not disabled and holds no counter
  for the actor and the rule: of eleven calls one after the other at one clock value the
  first ten are not blocked, with 9 down to 0 remaining, and the eleventh is blocked; the
  count stored after them is 10.
\<close>

theorem factor_scales_capacity:
  "(limitBucket s0 rule0 actor0 factor0 = Some (info0, s0') \<longrightarrow>
      (\<exists>counter1.
           update_drips (now s0) (nullish (dripRate rule0) 1000) (nullish (dripSize rule0) 1)
             (stored s0 (createLimitKey (Bucket rule0) actor0 None)) = Some counter1
           \<and> blocked info0 = (bucket_size rule0 * factor0 \<le> c counter1)
           \<and> remaining info0
               = max (bucket_size rule0 * factor0
                      - (if blocked info0 then c counter1 else c counter1 + 1)) 0
           \<and> (if blocked info0
                then kv (redisClient s0') = kv (redisClient s0)
                else stored s0' (createLimitKey (Bucket rule0) actor0 None)
                       = \<lparr>t = now s0, c = c counter1 + 1\<rparr>)))
   \<and> (\<not> disabled s
        \<and> kv (redisClient s) (createLimitKey (Bucket rule) actor None) = None
        \<and> bucket_size rule = 5 \<and> dripRate rule \<noteq> Some 0 \<and> dripSize rule \<noteq> Some 0 \<longrightarrow>
      (\<exists>infos s'. limit_times 11 s (Bucket rule) actor (Some 2) = Some (infos, s')
         \<and> map (\<lambda>i. (blocked i, remaining i)) infos
             = [(False, 9), (False, 8), (False, 7), (False, 6), (False, 5), (False, 4), (False, 3),
                (False, 2), (False, 1), (False, 0), (True, 0)]
         \<and> stored s' (createLimitKey (Bucket rule) actor None) = \<lparr>t = now s, c = 10\<rparr>))"
proof (intro conjI impI)
  assume "limitBucket s0 rule0 actor0 factor0 = Some (info0, s0')"
  then show "\<exists>counter1.
           update_drips (now s0) (nullish (dripRate rule0) 1000) (nullish (dripSize rule0) 1)
             (stored s0 (createLimitKey (Bucket rule0) actor0 None)) = Some counter1
           \<and> blocked info0 = (bucket_size rule0 * factor0 \<le> c counter1)
           \<and> remaining info0
               = max (bucket_size rule0 * factor0
                      - (if blocked info0 then c counter1 else c counter1 + 1)) 0
           \<and> (if blocked info0
                then kv (redisClient s0') = kv (redisClient s0)
                else stored s0' (createLimitKey (Bucket rule0) actor0 None)
                       = \<lparr>t = now s0, c = c counter1 + 1\<rparr>)"
    by (rule limitBucket_decision)
next
  assume "\<not> disabled s
        \<and> kv (redisClient s) (createLimitKey (Bucket rule) actor None) = None
        \<and> bucket_size rule = 5 \<and> dripRate rule \<noteq> Some 0 \<and> dripSize rule \<noteq> Some 0"
  then have "\<not> disabled s"
    and "kv (redisClient s) (createLimitKey (Bucket rule) actor None) = None"
    and "bucket_size rule = 5" and "dripRate rule \<noteq> Some 0" and "dripSize rule \<noteq> Some 0"
    by simp_all
  then show "\<exists>infos s'. limit_times 11 s (Bucket rule) actor (Some 2) = Some (infos, s')
         \<and> map (\<lambda>i. (blocked i, remaining i)) infos
             = [(False, 9), (False, 8), (False, 7), (False, 6), (False, 5), (False, 4), (False, 3),
                (False, 2), (False, 1), (False, 0), (True, 0)]
         \<and> stored s' (createLimitKey (Bucket rule) actor None) = \<lparr>t = now s, c = 10\<rparr>"
    by (simp add: eval_nat_numeral limit_def limitBucket_same_time stored_def nullish_def Let_def)
qed

theorem factor_scales_capacity_witness:
  "\<not> disabled \<lparr>disabled = False, now = 7, redisClient = \<lparr>kv = Map.empty, sent = []\<rparr>\<rparr>
   \<and> kv (redisClient \<lparr>disabled = False, now = 7, redisClient = \<lparr>kv = Map.empty, sent = []\<rparr>\<rparr>)
        ''rl_a_k'' = None
   \<and> map_option (map blocked \<circ> fst)
       (limit_times 11 \<lparr>disabled = False, now = 7, redisClient = \<lparr>kv = Map.empty, sent = []\<rparr>\<rparr>
          (Bucket \<lparr>key = ''k'', bucket_size = 5, dripRate = None, dripSize = None\<rparr>)
          ''a'' (Some 2))
       = Some [False, False, False, False, False, False, False, False, False, False, True]"
proof -
  let ?s = "\<lparr>disabled = False, now = 7, redisClient = \<lparr>kv = Map.empty, sent = []\<rparr>\<rparr>"
  let ?r = "\<lparr>key = ''k'', bucket_size = 5, dripRate = None, dripSize = None\<rparr>"
  have h: "\<not> disabled ?s
        \<and> kv (redisClient ?s) (createLimitKey (Bucket ?r) ''a'' None) = None
        \<and> bucket_size ?r = 5 \<and> dripRate ?r \<noteq> Some 0 \<and> dripSize ?r \<noteq> Some 0"
    by simp
  from factor_scales_capacity[where s = ?s and rule = ?r and actor = "''a''", THEN conjunct2,
      THEN mp, OF h]
  obtain infos s' where run: "limit_times 11 ?s (Bucket ?r) ''a'' (Some 2) = Some (infos, s')"
    and infos: "map (\<lambda>i. (blocked i, remaining i)) infos
             = [(False, 9), (False, 8), (False, 7), (False, 6), (False, 5), (False, 4), (False, 3),
                (False, 2), (False, 1), (False, 0), (True, 0)]"
    by auto
  from infos have "map (fst \<circ> (\<lambda>i. (blocked i, remaining i))) infos
      = [False, False, False, False, False, False, False, False, False, False, True]"
    unfolding map_map[symmetric] by simp
  then have "map blocked infos
      = [False, False, False, False, False, False, False, False, False, False, True]"
    by (simp add: comp_def)
  with run show ?thesis by simp
qed

subsection \<open>Decay of a full bucket\<close>

text \<open>
  C8. For a bucket rule of size 5 with drip rate 1000 and drip size 1, in a service that is
  not disabled and holds for the actor and the rule the count 5 written at the current
  time: a call is blocked and leaves the store as it is; at the time 1000 later the drips
  take the stored counter from 5 to 4, and a call then reads the same key, is not blocked
  and writes the count 4 + 1 with the new time.
\<close>

theorem bucket_decay:
  assumes "\<not> disabled s"
    and "kv (redisClient s) (createLimitKey (Bucket rule) actor None)
           = Some (\<lparr>t = now s, c = 5\<rparr>, px)"
    and "bucket_size rule = 5" and "dripRate rule = Some 1000" and "dripSize rule = Some 1"
  shows "\<exists>info1 s1 info2 s2.
           limit s (Bucket rule) actor None = Some (info1, s1)
           \<and> blocked info1
           \<and> kv (redisClient s1) = kv (redisClient s)
           \<and> update_drips (now s + 1000) 1000 1
                 (stored s1 (createLimitKey (Bucket rule) actor None))
               = Some \<lparr>t = now s, c = 4\<rparr>
           \<and> limit (s1\<lparr>now := now s + 1000\<rparr>) (Bucket rule) actor None = Some (info2, s2)
           \<and> \<not> blocked info2
           \<and> sent (redisClient s2)
               = sent (redisClient s1)
                 @ [GET (createLimitKey (Bucket rule) actor None),
                    SET (createLimitKey (Bucket rule) actor None)
                      \<lparr>t = now s + 1000, c = 4 + 1\<rparr> 5000]"
proof -
  let ?k = "createLimitKey (Bucket rule) actor None"
  let ?s1 = "s\<lparr>redisClient := (redisClient s)\<lparr>sent := sent (redisClient s) @ [GET ?k]\<rparr>\<rparr>"
  have st: "stored s ?k = \<lparr>t = now s, c = 5\<rparr>"
    using assms(2) by (simp add: stored_def)
  have first: "limit s (Bucket rule) actor None
      = Some (\<lparr>blocked = True, remaining = 0, resetSec = 1, resetMs = 1000, fullResetSec = 5,
                fullResetMs = 5000\<rparr>, ?s1)"
    using assms(1,3,4,5)
    by (simp add: limit_def limitBucket_same_time st nullish_def Math_ceil_def Let_def)
  have st1: "stored ?s1 ?k = \<lparr>t = now s, c = 5\<rparr>"
    using assms(2) by (simp add: stored_def)
  have drips: "update_drips (now s + 1000) 1000 1 \<lparr>t = now s, c = 5\<rparr> = Some \<lparr>t = now s, c = 4\<rparr>"
    by (simp add: update_drips_def js_div_def Math_floor_def)
  have second: "limit (?s1\<lparr>now := now s + 1000\<rparr>) (Bucket rule) actor None
      = Some (\<lparr>blocked = False, remaining = 0, resetSec = 1, resetMs = 1000, fullResetSec = 5,
                fullResetMs = 5000\<rparr>,
              ?s1\<lparr>now := now s + 1000,
                   redisClient :=
                     \<lparr>kv = (kv (redisClient s))(?k \<mapsto> (\<lparr>t = now s + 1000, c = 5\<rparr>, 5000)),
                      sent = sent (redisClient ?s1)
                             @ [GET ?k, SET ?k \<lparr>t = now s + 1000, c = 5\<rparr> 5000]\<rparr>\<rparr>)"
    using assms(1,3,4,5) st
    by (simp add: limit_def limitBucket_def getLimitCounter_eq stored_def[of "_\<lparr>now := _\<rparr>"]
        assms(2) drips js_div_def
        nullish_def Math_ceil_def setLimitCounter_def redis_set_def Let_def
        LimitCounter_update_all Redis_update_all)
  let ?i1 = "\<lparr>blocked = True, remaining = 0, resetSec = 1, resetMs = 1000, fullResetSec = 5,
                fullResetMs = 5000\<rparr>"
  let ?i2 = "\<lparr>blocked = False, remaining = 0, resetSec = 1, resetMs = 1000, fullResetSec = 5,
                fullResetMs = 5000\<rparr>"
  let ?s2 = "?s1\<lparr>now := now s + 1000,
                   redisClient :=
                     \<lparr>kv = (kv (redisClient s))(?k \<mapsto> (\<lparr>t = now s + 1000, c = 5\<rparr>, 5000)),
                      sent = sent (redisClient ?s1)
                             @ [GET ?k, SET ?k \<lparr>t = now s + 1000, c = 5\<rparr> 5000]\<rparr>\<rparr>"
  have "limit s (Bucket rule) actor None = Some (?i1, ?s1)
           \<and> blocked ?i1
           \<and> kv (redisClient ?s1) = kv (redisClient s)
           \<and> update_drips (now s + 1000) 1000 1 (stored ?s1 ?k) = Some \<lparr>t = now s, c = 4\<rparr>
           \<and> limit (?s1\<lparr>now := now s + 1000\<rparr>) (Bucket rule) actor None = Some (?i2, ?s2)
           \<and> \<not> blocked ?i2
           \<and> sent (redisClient ?s2)
               = sent (redisClient ?s1) @ [GET ?k, SET ?k \<lparr>t = now s + 1000, c = 4 + 1\<rparr> 5000]"
    using first second st1 drips by simp
  then show ?thesis by blast
qed


theorem bucket_decay_witness:
  "\<not> disabled \<lparr>disabled = False, now = 7,
       redisClient = \<lparr>kv = [''rl_a_k'' \<mapsto> (\<lparr>t = 7, c = 5\<rparr>, 5000)], sent = []\<rparr>\<rparr>
   \<and> map_option (blocked \<circ> fst)
       (limit \<lparr>disabled = False, now = 7,
               redisClient = \<lparr>kv = [''rl_a_k'' \<mapsto> (\<lparr>t = 7, c = 5\<rparr>, 5000)], sent = []\<rparr>\<rparr>
          (Bucket \<lparr>key = ''k'', bucket_size = 5, dripRate = Some 1000, dripSize = Some 1\<rparr>)
          ''a'' None) = Some True
   \<and> map_option (blocked \<circ> fst)
       (limit \<lparr>disabled = False, now = 1007,
               redisClient = \<lparr>kv = [''rl_a_k'' \<mapsto> (\<lparr>t = 7, c = 5\<rparr>, 5000)],
                              sent = [GET ''rl_a_k'']\<rparr>\<rparr>
          (Bucket \<lparr>key = ''k'', bucket_size = 5, dripRate = Some 1000, dripSize = Some 1\<rparr>)
          ''a'' None) = Some False"
proof -
  let ?s = "\<lparr>disabled = False, now = 7,
       redisClient = \<lparr>kv = [''rl_a_k'' \<mapsto> (\<lparr>t = 7, c = 5\<rparr>, 5000)], sent = []\<rparr>\<rparr>"
  let ?r = "\<lparr>key = ''k'', bucket_size = 5, dripRate = Some 1000, dripSize = Some 1\<rparr>"
  let ?s1 = "\<lparr>disabled = False, now = 7,
       redisClient = \<lparr>kv = [''rl_a_k'' \<mapsto> (\<lparr>t = 7, c = 5\<rparr>, 5000)],
                      sent = [GET ''rl_a_k'']\<rparr>\<rparr>"
  have first: "limit ?s (Bucket ?r) ''a'' None
      = Some (\<lparr>blocked = True, remaining = 0, resetSec = 1, resetMs = 1000, fullResetSec = 5,
                fullResetMs = 5000\<rparr>, ?s1)"
    by (simp add: limit_def limitBucket_def update_drips_def getLimitCounter_eq stored_def
        js_div_def Math_floor_def Math_ceil_def nullish_def createLimitKey_def Let_def)
  have "\<not> disabled ?s" and "kv (redisClient ?s) (createLimitKey (Bucket ?r) ''a'' None)
           = Some (\<lparr>t = now ?s, c = 5\<rparr>, 5000)"
    by (simp_all add: createLimitKey_def)
  from bucket_decay[OF this, of] obtain info1 s1 info2 s2
    where "limit ?s (Bucket ?r) ''a'' None = Some (info1, s1)" and "blocked info1"
      and "limit (s1\<lparr>now := now ?s + 1000\<rparr>) (Bucket ?r) ''a'' None = Some (info2, s2)"
      and "\<not> blocked info2"
    by auto
  with first show ?thesis by auto
qed

subsection \<open>The minimum interval\<close>

text \<open>
  C3. For every legacy rule, with \<^verbatim>\<open>minInterval\<close> 5000 and factor 1, in a service that
  holds no min-interval counter for the actor and the rule: the first call of the
  min-interval limiter is not blocked and stores the count 1 with the current time; a
  second call at the same time is blocked and leaves the store as it is; at the time 5000
  later the counter read is reset to the count 0, and the third call is not blocked and
  stores the count 0 + 1 with the new time. When the service is not disabled and the rule
  has no bucket part (\<^verbatim>\<open>max\<close> or \<^verbatim>\<open>duration\<close> not set or zero), these are the results
  of the three calls of \<^verbatim>\<open>limit\<close>.
\<close>

theorem min_interval_lazy_reset:
  assumes "kv (redisClient s) (createLimitKey (Legacy rule) actor (Some ''min'')) = None"
  shows "\<exists>info1 s1 info2 s2 info3 s3.
           limitMin s rule 5000 actor 1 = (info1, s1)
           \<and> \<not> blocked info1
           \<and> stored s1 (createLimitKey (Legacy rule) actor (Some ''min'')) = \<lparr>t = now s, c = 1\<rparr>
           \<and> limitMin s1 rule 5000 actor 1 = (info2, s2)
           \<and> blocked info2
           \<and> kv (redisClient s2) = kv (redisClient s1)
           \<and> update_expiration (now s + 5000) 1 5000
                 (stored s2 (createLimitKey (Legacy rule) actor (Some ''min'')))
               = \<lparr>t = now s, c = 0\<rparr>
           \<and> limitMin (s2\<lparr>now := now s + 5000\<rparr>) rule 5000 actor 1 = (info3, s3)
           \<and> \<not> blocked info3
           \<and> stored s3 (createLimitKey (Legacy rule) actor (Some ''min''))
               = \<lparr>t = now s + 5000, c = 0 + 1\<rparr>
           \<and> (\<not> disabled s \<and> minInterval rule = Some 5000
                \<and> \<not> (truthy (legacy_max rule) \<and> truthy (duration rule)) \<longrightarrow>
                limit s (Legacy rule) actor (Some 1) = Some (info1, s1)
                \<and> limit s1 (Legacy rule) actor (Some 1) = Some (info2, s2)
                \<and> limit (s2\<lparr>now := now s + 5000\<rparr>) (Legacy rule) actor (Some 1)
                    = Some (info3, s3))"
proof -
  let ?k = "createLimitKey (Legacy rule) actor (Some ''min'')"
  let ?pass = "\<lparr>blocked = False, remaining = 0, resetSec = 5, resetMs = 5000, fullResetSec = 5,
                fullResetMs = 5000\<rparr>"
  let ?stop = "\<lparr>blocked = True, remaining = 0, resetSec = 5, resetMs = 5000, fullResetSec = 5,
                fullResetMs = 5000\<rparr>"
  let ?s1 = "s\<lparr>redisClient :=
               \<lparr>kv = (kv (redisClient s))(?k \<mapsto> (\<lparr>t = now s, c = 1\<rparr>, 5000)),
                sent = sent (redisClient s) @ [GET ?k, SET ?k \<lparr>t = now s, c = 1\<rparr> 5000]\<rparr>\<rparr>"
  let ?s2 = "?s1\<lparr>redisClient := (redisClient ?s1)\<lparr>sent := sent (redisClient ?s1) @ [GET ?k]\<rparr>\<rparr>"
  let ?s3 = "?s2\<lparr>now := now s + 5000,
               redisClient :=
               \<lparr>kv = (kv (redisClient ?s2))(?k \<mapsto> (\<lparr>t = now s + 5000, c = 1\<rparr>, 5000)),
                sent = sent (redisClient ?s2)
                       @ [GET ?k, SET ?k \<lparr>t = now s + 5000, c = 1\<rparr> 5000]\<rparr>\<rparr>"
  have m1: "limitMin s rule 5000 actor 1 = (?pass, ?s1)"
    using assms
    by (simp add: limitMin_def update_expiration_def getLimitCounter_eq stored_def
        setLimitCounter_def redis_set_def Math_ceil_def Let_def
        LimitCounter_update_all Redis_update_all)
  have m2: "limitMin ?s1 rule 5000 actor 1 = (?stop, ?s2)"
    by (simp add: limitMin_def update_expiration_def getLimitCounter_eq stored_def
        Math_ceil_def Let_def)
  have m3: "limitMin (?s2\<lparr>now := now s + 5000\<rparr>) rule 5000 actor 1 = (?pass, ?s3)"
    by (simp add: limitMin_def update_expiration_def getLimitCounter_eq stored_def
        setLimitCounter_def redis_set_def Math_ceil_def Let_def
        LimitCounter_update_all Redis_update_all)
  have p: "\<not> blocked ?pass" and b: "blocked ?stop" by simp_all
  have st1: "stored ?s1 ?k = \<lparr>t = now s, c = 1\<rparr>"
    and st3: "stored ?s3 ?k = \<lparr>t = now s + 5000, c = 0 + 1\<rparr>"
    and kv2: "kv (redisClient ?s2) = kv (redisClient ?s1)"
    and ue: "update_expiration (now s + 5000) 1 5000 (stored ?s2 ?k) = \<lparr>t = now s, c = 0\<rparr>"
    by (simp_all add: stored_def update_expiration_def)
  have through_limit: "limit s (Legacy rule) actor (Some 1) = Some (?pass, ?s1)
                \<and> limit ?s1 (Legacy rule) actor (Some 1) = Some (?stop, ?s2)
                \<and> limit (?s2\<lparr>now := now s + 5000\<rparr>) (Legacy rule) actor (Some 1)
                    = Some (?pass, ?s3)"
    if a: "\<not> disabled s \<and> minInterval rule = Some 5000
                \<and> \<not> (truthy (legacy_max rule) \<and> truthy (duration rule))"
  proof -
    from a have d1: "\<not> disabled s" and mi: "minInterval rule = Some 5000"
      and nb: "(truthy (legacy_max rule) \<and> truthy (duration rule)) = False"
      by simp_all
    have h: "hasMinLimit rule" and n: "nullish (minInterval rule) 0 = 5000"
      and f: "nullish (Some 1) 1 = (1::real)"
      using mi by (simp_all add: hasMinLimit_def truthy_def nullish_def)
    have legacy: "limit s0 (Legacy rule) actor (Some 1)
        = (let (r, s') = limitMin s0 rule 5000 actor 1
           in Some (merge_spec (Some r) None, s'))" if "\<not> disabled s0" for s0
      using that
      by (simp add: limit_def limitLegacy_def h n f nb Let_def nth_opt_simps merge_source_eq_spec
          split: prod.splits)
    have merge: "merge_spec (Some ?pass) None = ?pass" "merge_spec (Some ?stop) None = ?stop"
      by (simp_all add: merge_spec_def)
    have d2: "\<not> disabled ?s1" and d3: "\<not> disabled (?s2\<lparr>now := now s + 5000\<rparr>)"
      using d1 by simp_all
    have l1: "limit s (Legacy rule) actor (Some 1) = Some (?pass, ?s1)"
      unfolding legacy[OF d1] m1 by (simp add: merge)
    have l2: "limit ?s1 (Legacy rule) actor (Some 1) = Some (?stop, ?s2)"
      unfolding legacy[OF d2] m2 by (simp add: merge)
    have l3: "limit (?s2\<lparr>now := now s + 5000\<rparr>) (Legacy rule) actor (Some 1) = Some (?pass, ?s3)"
      unfolding legacy[OF d3] m3 by (simp add: merge)
    from l1 l2 l3 show ?thesis by (intro conjI)
  qed
  from m1 p st1 m2 b kv2 ue m3 st3 through_limit show ?thesis by blast
qed

theorem min_interval_lazy_reset_witness:
  "kv (redisClient \<lparr>disabled = False, now = 7, redisClient = \<lparr>kv = Map.empty, sent = []\<rparr>\<rparr>)
        ''rl_a_k_min'' = None
   \<and> \<not> blocked (fst (limitMin
          \<lparr>disabled = False, now = 7, redisClient = \<lparr>kv = Map.empty, sent = []\<rparr>\<rparr>
          \<lparr>legacy_key = ''k'', duration = None, legacy_max = None, minInterval = Some 5000\<rparr>
          5000 ''a'' 1))
   \<and> \<not> disabled \<lparr>disabled = False, now = 7, redisClient = \<lparr>kv = Map.empty, sent = []\<rparr>\<rparr>
   \<and> \<not> (truthy None \<and> truthy None)
   \<and> map_option (blocked \<circ> fst)
       (limit \<lparr>disabled = False, now = 7, redisClient = \<lparr>kv = Map.empty, sent = []\<rparr>\<rparr>
          (Legacy \<lparr>legacy_key = ''k'', duration = None, legacy_max = None,
                   minInterval = Some 5000\<rparr>) ''a'' (Some 1)) = Some False"
proof -
  let ?s = "\<lparr>disabled = False, now = 7, redisClient = \<lparr>kv = Map.empty, sent = []\<rparr>\<rparr>"
  let ?r = "\<lparr>legacy_key = ''k'', duration = None, legacy_max = None, minInterval = Some 5000\<rparr>"
  have "kv (redisClient ?s) (createLimitKey (Legacy ?r) ''a'' (Some ''min'')) = None"
    by simp
  from min_interval_lazy_reset[OF this] obtain info1 s1
    where m: "limitMin ?s ?r 5000 ''a'' 1 = (info1, s1)" and nb: "\<not> blocked info1"
      and l: "\<not> disabled ?s \<and> minInterval ?r = Some 5000
                \<and> \<not> (truthy (legacy_max ?r) \<and> truthy (duration ?r)) \<longrightarrow>
                limit ?s (Legacy ?r) ''a'' (Some 1) = Some (info1, s1)"
    by blast
  have "\<not> disabled ?s \<and> minInterval ?r = Some 5000
                \<and> \<not> (truthy (legacy_max ?r) \<and> truthy (duration ?r))"
    by (simp add: truthy_def)
  with l have "limit ?s (Legacy ?r) ''a'' (Some 1) = Some (info1, s1)" by (rule mp)
  with m nb show ?thesis by (simp add: truthy_def)
qed

subsection \<open>Factor zero\<close>

lemma limitBucket_factor_zero_fresh:
  assumes "kv (redisClient s) (createLimitKey (Bucket b) actor None) = None"
    and "dripSize b \<noteq> Some 0"
  shows "\<exists>info s'. limitBucket s b actor 0 = Some (info, s') \<and> blocked info \<and> remaining info = 0"
  using assms
  by (cases "dripSize b")
     (simp_all add: limitBucket_def update_drips_def getLimitCounter_eq stored_def js_div_def
        nullish_def Let_def)

lemma update_drips_nonneg:
  assumes "update_drips time_now r z counter = Some counter1" and "0 \<le> c counter"
  shows "0 \<le> c counter1"
  using assms by (auto simp: update_drips_def split: if_splits Option.bind_splits)

lemma limitBucket_factor_zero:
  assumes "limitBucket s b actor 0 = Some (info, s')"
    and "0 \<le> c (stored s (createLimitKey (Bucket b) actor None))"
  shows "blocked info"
proof -
  from assms(1) obtain counter1 where
    u: "update_drips (now s) (nullish (dripRate b) 1000) (nullish (dripSize b) 1)
          (stored s (createLimitKey (Bucket b) actor None)) = Some counter1"
    and i: "blocked info = (c counter1 \<ge> 0)"
    by (auto simp: limitBucket_def getLimitCounter_eq Let_def split: Option.bind_splits)
  from update_drips_nonneg[OF u assms(2)] i show ?thesis by simp
qed

lemma limitMin_factor_zero_fresh:
  assumes "kv (redisClient s) (createLimitKey (Legacy l) actor (Some ''min'')) = None"
  shows "\<not> blocked (fst (limitMin s l mi actor 0))"
    and "stored (snd (limitMin s l mi actor 0)) (createLimitKey (Legacy l) actor (Some ''min''))
           = \<lparr>t = now s, c = 1\<rparr>"
  using assms
  by (simp_all add: limitMin_def update_expiration_def getLimitCounter_eq setLimitCounter_def
      redis_set_def stored_def Math_ceil_def Let_def)

lemma limitMin_factor_zero_within:
  assumes "1 \<le> c (stored s (createLimitKey (Legacy l) actor (Some ''min'')))"
    and "now s - t (stored s (createLimitKey (Legacy l) actor (Some ''min''))) < mi"
  shows "blocked (fst (limitMin s l mi actor 0))"
  using assms
  by (simp add: limitMin_def update_expiration_def getLimitCounter_eq Math_ceil_def Let_def)

lemma limitMin_factor_zero_after:
  assumes "1 \<le> c (stored s (createLimitKey (Legacy l) actor (Some ''min'')))"
    and "mi \<le> now s - t (stored s (createLimitKey (Legacy l) actor (Some ''min'')))"
  shows "\<not> blocked (fst (limitMin s l mi actor 0))"
  using assms
  by (simp add: limitMin_def update_expiration_def getLimitCounter_eq Math_ceil_def Let_def)

text \<open>
  C10. With factor 0 a bucket call on an absent counter is blocked: \<^verbatim>\<open>limit\<close> returns
  (given a drip size that is not zero, so that the arithmetic stays finite) and the result
  is blocked; so is every result on a stored count that is not negative. The min-interval
  limiter with factor 0 allows \<open>max (ceil 0) 1 = 1\<close> call: on an absent counter the call is
  not blocked and stores the count 1; on a stored count of at least 1 the call is blocked
  while less than the interval has passed since the stored time, and not blocked once the
  interval has passed.
\<close>

theorem factor_zero_edge:
  "(\<not> disabled s \<and> kv (redisClient s) (createLimitKey (Bucket b) actor None) = None
      \<and> dripSize b \<noteq> Some 0 \<longrightarrow>
      (\<exists>info s'. limit s (Bucket b) actor (Some 0) = Some (info, s') \<and> blocked info))
   \<and> (\<not> disabled s \<and> limit s (Bucket b) actor (Some 0) = Some (info, s')
      \<and> 0 \<le> c (stored s (createLimitKey (Bucket b) actor None)) \<longrightarrow> blocked info)
   \<and> max (Math_ceil 0) 1 = 1
   \<and> (kv (redisClient sm) (createLimitKey (Legacy l) actor (Some ''min'')) = None \<longrightarrow>
      \<not> blocked (fst (limitMin sm l mi actor 0))
      \<and> stored (snd (limitMin sm l mi actor 0)) (createLimitKey (Legacy l) actor (Some ''min''))
          = \<lparr>t = now sm, c = 1\<rparr>)
   \<and> (1 \<le> c (stored sm (createLimitKey (Legacy l) actor (Some ''min'')))
      \<and> now sm - t (stored sm (createLimitKey (Legacy l) actor (Some ''min''))) < mi \<longrightarrow>
      blocked (fst (limitMin sm l mi actor 0)))
   \<and> (1 \<le> c (stored sm (createLimitKey (Legacy l) actor (Some ''min'')))
      \<and> mi \<le> now sm - t (stored sm (createLimitKey (Legacy l) actor (Some ''min''))) \<longrightarrow>
      \<not> blocked (fst (limitMin sm l mi actor 0)))"
proof (intro conjI impI)
  assume a: "\<not> disabled s \<and> kv (redisClient s) (createLimitKey (Bucket b) actor None) = None
      \<and> dripSize b \<noteq> Some 0"
  then have d: "\<not> disabled s"
    and k: "kv (redisClient s) (createLimitKey (Bucket b) actor None) = None"
    and z: "dripSize b \<noteq> Some 0"
    by simp_all
  from limitBucket_factor_zero_fresh[OF k z] obtain info s'
    where "limitBucket s b actor 0 = Some (info, s')" and "blocked info"
    by blast
  with d have "limit s (Bucket b) actor (Some 0) = Some (info, s') \<and> blocked info"
    by (simp add: limit_def nullish_def)
  then show "\<exists>info s'. limit s (Bucket b) actor (Some 0) = Some (info, s') \<and> blocked info"
    by blast
next
  assume a: "\<not> disabled s \<and> limit s (Bucket b) actor (Some 0) = Some (info, s')
      \<and> 0 \<le> c (stored s (createLimitKey (Bucket b) actor None))"
  then have d: "\<not> disabled s" and r: "limit s (Bucket b) actor (Some 0) = Some (info, s')"
    and n: "0 \<le> c (stored s (createLimitKey (Bucket b) actor None))"
    by simp_all
  from d r have "limitBucket s b actor 0 = Some (info, s')"
    by (simp add: limit_def nullish_def)
  then show "blocked info" using n by (rule limitBucket_factor_zero)
next
  show "max (Math_ceil 0) 1 = 1" by (simp add: Math_ceil_def)
next
  assume a: "kv (redisClient sm) (createLimitKey (Legacy l) actor (Some ''min'')) = None"
  show "\<not> blocked (fst (limitMin sm l mi actor 0))"
    using a by (rule limitMin_factor_zero_fresh)
  show "stored (snd (limitMin sm l mi actor 0)) (createLimitKey (Legacy l) actor (Some ''min''))
          = \<lparr>t = now sm, c = 1\<rparr>"
    using a by (rule limitMin_factor_zero_fresh)
next
  assume "1 \<le> c (stored sm (createLimitKey (Legacy l) actor (Some ''min'')))
      \<and> now sm - t (stored sm (createLimitKey (Legacy l) actor (Some ''min''))) < mi"
  then show "blocked (fst (limitMin sm l mi actor 0))"
    by (intro limitMin_factor_zero_within) simp_all
next
  assume "1 \<le> c (stored sm (createLimitKey (Legacy l) actor (Some ''min'')))
      \<and> mi \<le> now sm - t (stored sm (createLimitKey (Legacy l) actor (Some ''min'')))"
  then show "\<not> blocked (fst (limitMin sm l mi actor 0))"
    by (intro limitMin_factor_zero_after) simp_all
qed

theorem factor_zero_edge_witness:
  "\<not> disabled \<lparr>disabled = False, now = 7, redisClient = \<lparr>kv = Map.empty, sent = []\<rparr>\<rparr>
   \<and> dripSize \<lparr>key = ''k'', bucket_size = 5, dripRate = None, dripSize = None\<rparr> \<noteq> Some 0
   \<and> map_option (blocked \<circ> fst)
       (limit \<lparr>disabled = False, now = 7, redisClient = \<lparr>kv = Map.empty, sent = []\<rparr>\<rparr>
          (Bucket \<lparr>key = ''k'', bucket_size = 5, dripRate = None, dripSize = None\<rparr>)
          ''a'' (Some 0)) = Some True
   \<and> \<not> blocked (fst (limitMin
          \<lparr>disabled = False, now = 7, redisClient = \<lparr>kv = Map.empty, sent = []\<rparr>\<rparr>
          \<lparr>legacy_key = ''k'', duration = None, legacy_max = None, minInterval = Some 5000\<rparr>
          5000 ''a'' 0))
   \<and> blocked (fst (limitMin
          \<lparr>disabled = False, now = 8,
           redisClient = \<lparr>kv = [''rl_a_k_min'' \<mapsto> (\<lparr>t = 7, c = 1\<rparr>, 5000)], sent = []\<rparr>\<rparr>
          \<lparr>legacy_key = ''k'', duration = None, legacy_max = None, minInterval = Some 5000\<rparr>
          5000 ''a'' 0))"
proof -
  let ?s = "\<lparr>disabled = False, now = 7, redisClient = \<lparr>kv = Map.empty, sent = []\<rparr>\<rparr>"
  let ?s' = "\<lparr>disabled = False, now = 8,
           redisClient = \<lparr>kv = [''rl_a_k_min'' \<mapsto> (\<lparr>t = 7, c = 1\<rparr>, 5000)], sent = []\<rparr>\<rparr>"
  let ?b = "\<lparr>key = ''k'', bucket_size = 5, dripRate = None, dripSize = None\<rparr>"
  let ?l = "\<lparr>legacy_key = ''k'', duration = None, legacy_max = None, minInterval = Some 5000\<rparr>"
  have hb: "\<not> disabled ?s \<and> kv (redisClient ?s) (createLimitKey (Bucket ?b) ''a'' None) = None
      \<and> dripSize ?b \<noteq> Some 0"
    by simp
  have hm: "kv (redisClient ?s) (createLimitKey (Legacy ?l) ''a'' (Some ''min'')) = None"
    by simp
  have hw: "1 \<le> c (stored ?s' (createLimitKey (Legacy ?l) ''a'' (Some ''min'')))
      \<and> now ?s' - t (stored ?s' (createLimitKey (Legacy ?l) ''a'' (Some ''min''))) < 5000"
    by (simp add: stored_def createLimitKey_def)
  note e = factor_zero_edge[where s = ?s and b = ?b and actor = "''a''" and sm = ?s and l = ?l
      and mi = 5000]
  note e' = factor_zero_edge[where sm = ?s' and l = ?l and actor = "''a''" and mi = 5000]
  from e[THEN conjunct1, THEN mp, OF hb]
  have 1: "map_option (blocked \<circ> fst) (limit ?s (Bucket ?b) ''a'' (Some 0)) = Some True"
    by auto
  from e[THEN conjunct2, THEN conjunct2, THEN conjunct2, THEN conjunct1, THEN mp, OF hm]
  have 2: "\<not> blocked (fst (limitMin ?s ?l 5000 ''a'' 0))"
    by (rule conjunct1)
  from e'[THEN conjunct2, THEN conjunct2, THEN conjunct2, THEN conjunct2, THEN conjunct1, THEN mp,
      OF hw]
  have 3: "blocked (fst (limitMin ?s' ?l 5000 ''a'' 0))" .
  from 1 2 3 show ?thesis by simp
qed

end
